theory Spec2Isabelle
  imports Main "HOL-Library.AList"
begin

section \<open>The chat server of src/server/server.js\<close>

text \<open>
  The server keeps two JavaScript \<^verbatim>\<open>Map\<close>s, \<^verbatim>\<open>users\<close> (socket id to
  \<^verbatim>\<open>{ username, currentRoom }\<close>) and \<^verbatim>\<open>rooms\<close> (room id to
  \<^verbatim>\<open>{ name, users: Set<socketId> }\<close>). A \<^verbatim>\<open>Map\<close> and a \<^verbatim>\<open>Set\<close> iterate in
  insertion order, and that order is visible in the payloads the server sends, so a
  \<^verbatim>\<open>Map\<close> is an association list and a \<^verbatim>\<open>Set\<close> a list:
  \<^item> \<^verbatim>\<open>m.get(k)\<close> is \<open>map_of m k\<close>, \<^verbatim>\<open>m.has(k)\<close> is \<open>map_of m k \<noteq> None\<close>;
  \<^item> \<^verbatim>\<open>m.set(k, v)\<close> is \<open>AList.update k v m\<close>: an existing key keeps its place, a new
    one goes to the end;
  \<^item> \<^verbatim>\<open>m.delete(k)\<close> is \<open>AList.delete k m\<close>, \<^verbatim>\<open>m.keys()\<close> is \<open>map fst m\<close>;
  \<^item> \<^verbatim>\<open>s.add(x)\<close> and \<^verbatim>\<open>s.delete(x)\<close> are \<open>set_add\<close> and \<open>set_delete\<close> below.
  Socket ids, room ids and user names are JavaScript strings.
\<close>

type_synonym socket_id = string
type_synonym room_id = string

record user_data =
  username :: string
  currentRoom :: room_id

record room_data =
  name :: string
  users_set :: "socket_id list"

record server =
  users :: "(socket_id \<times> user_data) list"
  rooms :: "(room_id \<times> room_data) list"

definition set_add :: "'a \<Rightarrow> 'a list \<Rightarrow> 'a list" where
  "set_add x xs = (if x \<in> set xs then xs else xs @ [x])"

definition set_delete :: "'a \<Rightarrow> 'a list \<Rightarrow> 'a list" where
  "set_delete x xs = removeAll x xs"

definition DEFAULT_ROOM :: room_id where
  "DEFAULT_ROOM = ''general''"

text \<open>The state after the module has been loaded: no users, the default room.\<close>

definition init :: server where
  "init = \<lparr>users = [],
           rooms = [(DEFAULT_ROOM, \<lparr>name = ''General Chat'', users_set = []\<rparr>)]\<rparr>"

subsection \<open>What a handler does to the outside\<close>

text \<open>
  A handler talks to Socket.IO only: it sends an event with one of four addressing forms
  and subscribes or unsubscribes its own socket to a room label. The model records these
  calls in order.
  \<^item> \<open>Socket i\<close> is \<^verbatim>\<open>socket.emit\<close> on the socket \<open>i\<close> of the handler;
  \<^item> \<open>IoTo l\<close> is \<^verbatim>\<open>io.to(l).emit\<close>;
  \<^item> \<open>IoAll\<close> is \<^verbatim>\<open>io.emit\<close>;
  \<^item> \<open>SocketTo i l\<close> is \<^verbatim>\<open>socket.to(l).emit\<close> on the socket \<open>i\<close>.
\<close>

datatype target = Socket socket_id | IoTo string | IoAll | SocketTo socket_id string

text \<open>
  The object sent with \<^verbatim>\<open>receive_message\<close>. A room message has the fields sender, message,
  timestamp and room; a private one has sender, message, timestamp, isPrivate and receiver.
  A field the object does not have is \<open>None\<close>.
\<close>

record message_data =
  sender :: string
  message :: string
  timestamp :: string
  room :: "room_id option"
  isPrivate :: "bool option"
  receiver :: "string option"

datatype event =
    error_message string
  | user_joined socket_id string room_id
  | online_users "(socket_id \<times> string \<times> room_id) list"
  | available_rooms "room_id list"
  | receive_message message_data
  | room_users_update room_id "string list"
  | room_changed room_id
  | typing_status string bool room_id
  | user_disconnected socket_id

datatype action =
    Emit target event
  | Join socket_id string
  | Leave socket_id string

text \<open>
  \<^verbatim>\<open>new Date().toISOString()\<close> reads the wall clock. A handler run gets a \<open>clock\<close>:
  \<open>clk k\<close> is what the \<open>k\<close>-th reading of that run returns, counted from 0.
\<close>

type_synonym clock = "nat \<Rightarrow> string"

text \<open>
  An uncaught \<^verbatim>\<open>TypeError\<close> (reading \<^verbatim>\<open>.users\<close> of \<^verbatim>\<open>undefined\<close>) ends the handler;
  a handler that can throw returns \<open>Inl TypeError\<close> then.
\<close>

datatype js_error = TypeError

subsection \<open>Expressions the handlers share\<close>

text \<open>
  \<^verbatim>\<open>Array.from(rooms.get(r)?.users || new Set())\<close>: the occupants of room \<open>r\<close>, none when
  the room does not exist.
\<close>

definition room_users :: "server \<Rightarrow> room_id \<Rightarrow> socket_id list" where
  "room_users s r = (case map_of (rooms s) r of None \<Rightarrow> [] | Some rm \<Rightarrow> users_set rm)"

text \<open>
  \<^verbatim>\<open>ids.map(id => users.get(id)?.username).filter(Boolean)\<close>: an id without a session
  gives \<^verbatim>\<open>undefined\<close>, and \<^verbatim>\<open>filter(Boolean)\<close> drops \<^verbatim>\<open>undefined\<close> and the empty
  string.
\<close>

definition usernames_of :: "(socket_id \<times> user_data) list \<Rightarrow> socket_id list \<Rightarrow> string list" where
  "usernames_of us ids =
     filter (\<lambda>n. n \<noteq> '''') (List.map_filter (\<lambda>i. map_option username (map_of us i)) ids)"

text \<open>\<^verbatim>\<open>rooms.get(r)?.users.delete(id)\<close>, and \<^verbatim>\<open>rooms.get(r).users.add(id)\<close> on a room that exists.\<close>

definition room_delete_user :: "room_id \<Rightarrow> socket_id \<Rightarrow> server \<Rightarrow> server" where
  "room_delete_user r i s =
     (case map_of (rooms s) r of
        None \<Rightarrow> s
      | Some rm \<Rightarrow> s\<lparr>rooms := AList.update r (rm\<lparr>users_set := set_delete i (users_set rm)\<rparr>) (rooms s)\<rparr>)"

definition room_add_user :: "room_id \<Rightarrow> socket_id \<Rightarrow> server \<Rightarrow> js_error + server" where
  "room_add_user r i s =
     (case map_of (rooms s) r of
        None \<Rightarrow> Inl TypeError
      | Some rm \<Rightarrow> Inr (s\<lparr>rooms := AList.update r (rm\<lparr>users_set := set_add i (users_set rm)\<rparr>) (rooms s)\<rparr>))"

text \<open>The \<^verbatim>\<open>room_users_update\<close> broadcast to a room, with the room's occupant names.\<close>

definition emit_room_users :: "server \<Rightarrow> room_id \<Rightarrow> action" where
  "emit_room_users s r =
     Emit (IoTo r) (room_users_update r (usernames_of (users s) (room_users s r)))"

text \<open>A message of the sender \<^verbatim>\<open>'System'\<close> to a room.\<close>

definition system_message :: "string \<Rightarrow> string \<Rightarrow> room_id \<Rightarrow> message_data" where
  "system_message txt ts r =
     \<lparr>sender = ''System'', message = txt, timestamp = ts, room = Some r,
      isPrivate = None, receiver = None\<rparr>"

subsection \<open>join_chat (server.js, lines 42 to 88)\<close>

definition join_chat :: "server \<Rightarrow> clock \<Rightarrow> socket_id \<Rightarrow> string \<Rightarrow> js_error + (server \<times> action list)" where
  "join_chat s clk i uname =
     (if uname = '''' then
        Inr (s, [Emit (Socket i) (error_message ''Username cannot be empty.'')])
      else case find (\<lambda>u. username u = uname) (map snd (users s)) of
        Some existingUser \<Rightarrow>
          Inr (s, [Emit (Socket i)
                    (error_message ''Username already taken. Please choose another.'')])
      | None \<Rightarrow>
          let s1 = s\<lparr>users := AList.update i
                       \<lparr>username = uname, currentRoom = DEFAULT_ROOM\<rparr> (users s)\<rparr>;
              out1 =
                [Join i DEFAULT_ROOM,
                 Emit IoAll (user_joined i uname DEFAULT_ROOM),
                 Emit (Socket i)
                   (online_users (map (\<lambda>(j, d). (j, username d, currentRoom d)) (users s1))),
                 Emit (Socket i) (available_rooms (map fst (rooms s1))),
                 Emit (Socket i)
                   (receive_message
                     (system_message
                       (''Welcome, '' @ uname @ ''! You are in the '' @ [CHR 0x27]
                          @ DEFAULT_ROOM @ [CHR 0x27] @ '' room.'')
                       (clk 0) DEFAULT_ROOM))]
          in (case room_add_user DEFAULT_ROOM i s1 of
                Inl e \<Rightarrow> Inl e
              | Inr s2 \<Rightarrow> Inr (s2, out1 @ [emit_room_users s2 DEFAULT_ROOM])))"

subsection \<open>join_room (server.js, lines 93 to 141)\<close>

text \<open>
  Lines 100 to 115, run when \<^verbatim>\<open>user.currentRoom\<close> is truthy, that is, not the empty
  string: the socket leaves the room \<open>old\<close>, the room's occupants and then the room's
  subscribers are told.
\<close>

definition leave_current :: "server \<Rightarrow> string \<Rightarrow> socket_id \<Rightarrow> user_data \<Rightarrow> server \<times> action list" where
  "leave_current s ts i user =
     (let old = currentRoom user;
          s1 = room_delete_user old i s
      in (s1, [Leave i old,
               emit_room_users s1 old,
               Emit (IoTo old)
                 (receive_message (system_message (username user @ '' has left the room.'') ts old))]))"

text \<open>Lines 117 to 121: the room is created when the map does not have it.\<close>

definition create_room :: "server \<Rightarrow> room_id \<Rightarrow> server \<times> action list" where
  "create_room s roomName =
     (if map_of (rooms s) roomName = None then
        let s1 = s\<lparr>rooms := AList.update roomName \<lparr>name = roomName, users_set = []\<rparr> (rooms s)\<rparr>
        in (s1, [Emit IoAll (available_rooms (map fst (rooms s1)))])
      else (s, []))"

text \<open>
  Lines 123 to 139. \<^verbatim>\<open>user\<close> is the object stored in the map, so the assignment to
  \<^verbatim>\<open>user.currentRoom\<close> changes the entry of the map in place. The room exists by now:
  \<open>room_add_user\<close> cannot throw here, and the branch \<open>Inl\<close> keeps the state.
\<close>

definition enter_room :: "server \<Rightarrow> string \<Rightarrow> socket_id \<Rightarrow> user_data \<Rightarrow> room_id \<Rightarrow> server \<times> action list" where
  "enter_room s ts i user roomName =
     (let s1 = s\<lparr>users := AList.update i (user\<lparr>currentRoom := roomName\<rparr>) (users s)\<rparr>;
          s2 = (case room_add_user roomName i s1 of Inl e \<Rightarrow> s1 | Inr s' \<Rightarrow> s')
      in (s2, [Join i roomName,
               emit_room_users s2 roomName,
               Emit (IoTo roomName)
                 (receive_message
                   (system_message (username user @ '' has joined the room.'') ts roomName)),
               Emit (Socket i) (room_changed roomName)]))"

definition join_room :: "server \<Rightarrow> clock \<Rightarrow> socket_id \<Rightarrow> room_id \<Rightarrow> server \<times> action list" where
  "join_room s clk i roomName =
     (case map_of (users s) i of
        None \<Rightarrow> (s, [Emit (Socket i) (error_message ''Please set your username first.'')])
      | Some user \<Rightarrow>
          let (s1, out1, k) =
                (if currentRoom user \<noteq> '''' then
                   (let (s', out') = leave_current s (clk 0) i user in (s', out', Suc 0))
                 else (s, [], 0));
              (s2, out2) = create_room s1 roomName;
              (s3, out3) = enter_room s2 (clk k) i user roomName
          in (s3, out1 @ out2 @ out3))"

subsection \<open>send_message and send_private_message (lines 146 to 193)\<close>

definition send_message :: "server \<Rightarrow> clock \<Rightarrow> socket_id \<Rightarrow> string \<Rightarrow> server \<times> action list" where
  "send_message s clk i msg =
     (case map_of (users s) i of
        None \<Rightarrow> (s, [Emit (Socket i) (error_message ''Please set your username first.'')])
      | Some user \<Rightarrow>
          let messageData =
                \<lparr>sender = username user, message = msg, timestamp = clk 0,
                 room = Some (currentRoom user), isPrivate = None, receiver = None\<rparr>
          in (s, [Emit (IoTo (currentRoom user)) (receive_message messageData)]))"

definition send_private_message ::
  "server \<Rightarrow> clock \<Rightarrow> socket_id \<Rightarrow> socket_id \<Rightarrow> string \<Rightarrow> server \<times> action list" where
  "send_private_message s clk i receiverSocketId msg =
     (case map_of (users s) i of
        None \<Rightarrow> (s, [Emit (Socket i) (error_message ''Please set your username first.'')])
      | Some senderUser \<Rightarrow>
          (case map_of (users s) receiverSocketId of
             None \<Rightarrow>
               (s, [Emit (Socket i)
                      (error_message (''User with ID '' @ receiverSocketId @ '' is not online.''))])
           | Some receiverUser \<Rightarrow>
               let messageData =
                     \<lparr>sender = username senderUser, message = msg, timestamp = clk 0,
                      room = None, isPrivate = Some True,
                      receiver = Some (username receiverUser)\<rparr>
               in (s, [Emit (Socket i) (receive_message messageData),
                       Emit (IoTo receiverSocketId) (receive_message messageData)])))"

subsection \<open>typing_start and typing_stop (lines 198 to 213)\<close>

definition typing_start :: "server \<Rightarrow> socket_id \<Rightarrow> room_id \<Rightarrow> server \<times> action list" where
  "typing_start s i r =
     (case map_of (users s) i of
        None \<Rightarrow> (s, [])
      | Some user \<Rightarrow> (s, [Emit (SocketTo i r) (typing_status (username user) True r)]))"

definition typing_stop :: "server \<Rightarrow> socket_id \<Rightarrow> room_id \<Rightarrow> server \<times> action list" where
  "typing_stop s i r =
     (case map_of (users s) i of
        None \<Rightarrow> (s, [])
      | Some user \<Rightarrow> (s, [Emit (SocketTo i r) (typing_status (username user) False r)]))"

subsection \<open>disconnect (lines 217 to 240)\<close>

definition disconnect :: "server \<Rightarrow> clock \<Rightarrow> socket_id \<Rightarrow> server \<times> action list" where
  "disconnect s clk i =
     (case map_of (users s) i of
        None \<Rightarrow> (s, [])
      | Some user \<Rightarrow>
          let (s1, out1) =
                (if currentRoom user \<noteq> '''' \<and> map_of (rooms s) (currentRoom user) \<noteq> None then
                   (let r = currentRoom user;
                        s' = room_delete_user r i s
                    in (s', [emit_room_users s' r,
                             Emit (IoTo r)
                               (receive_message
                                 (system_message (username user @ '' has left the room.'')
                                   (clk 0) r))]))
                 else (s, []))
          in (s1\<lparr>users := AList.delete i (users s1)\<rparr>,
              out1 @ [Emit IoAll (user_disconnected i)]))"

subsection \<open>The server as a transition system\<close>

text \<open>The events a connection can send, with their payloads.\<close>

datatype inbound =
    In_join_chat string
  | In_join_room room_id
  | In_send_message string
  | In_send_private_message socket_id string
  | In_typing_start room_id
  | In_typing_stop room_id
  | In_disconnect

fun handle :: "server \<Rightarrow> clock \<Rightarrow> socket_id \<Rightarrow> inbound \<Rightarrow> js_error + (server \<times> action list)" where
  "handle s clk i (In_join_chat uname) = join_chat s clk i uname"
| "handle s clk i (In_join_room r) = Inr (join_room s clk i r)"
| "handle s clk i (In_send_message m) = Inr (send_message s clk i m)"
| "handle s clk i (In_send_private_message j m) = Inr (send_private_message s clk i j m)"
| "handle s clk i (In_typing_start r) = Inr (typing_start s i r)"
| "handle s clk i (In_typing_stop r) = Inr (typing_stop s i r)"
| "handle s clk i In_disconnect = Inr (disconnect s clk i)"

text \<open>
  Handlers run one at a time, each to completion. \<open>run\<close> feeds a list of events, each
  with the socket it comes from, to the server and collects what the handlers did; every
  handler run reads the same clock, which no property below depends on.
\<close>

fun run :: "server \<Rightarrow> clock \<Rightarrow> (socket_id \<times> inbound) list \<Rightarrow> js_error + (server \<times> action list)" where
  "run s clk [] = Inr (s, [])"
| "run s clk ((i, e) # es) =
     (case handle s clk i e of
        Inl err \<Rightarrow> Inl err
      | Inr (s1, out1) \<Rightarrow>
          (case run s1 clk es of
             Inl err \<Rightarrow> Inl err
           | Inr (s2, out2) \<Rightarrow> Inr (s2, out1 @ out2)))"

text \<open>The states the server can be in: \<open>init\<close> and what a handler makes of such a state.\<close>

inductive reachable :: "server \<Rightarrow> bool" where
  reachable_init: "reachable init"
| reachable_step: "reachable s \<Longrightarrow> handle s clk i e = Inr (s', out) \<Longrightarrow> reachable s'"

subsection \<open>The transport\<close>

text \<open>
  Modelled from the spec: the transport of section 6 of the specification, ``a
  bidirectional per-connection channel supporting named-event send/receive, addressed
  unicast (by connection-id), room-scoped multicast (subscribe/unsubscribe a
  connection-id to a room label, multicast to all subscribed), and global broadcast''. It
  is the library Socket.IO (version 4) and is not among the sources; the handlers reach
  it only through the calls that \<open>action\<close> records. The library has one kind of address, the
  label, and keeps the sockets subscribed to each label. The model keeps the connected
  sockets, in the order in which they connected, and the subscriptions as pairs of a
  socket and a label, in the order in which they were made.
  \<^item> A socket that connects is subscribed to the label that is its own id.
  \<^item> \<^verbatim>\<open>socket.join(l)\<close> and \<^verbatim>\<open>socket.leave(l)\<close> subscribe and unsubscribe the socket, whatever
    the label is.
  \<^item> When a connection closes the library takes the socket out of every label and out of
    the connected sockets, and runs the \<^verbatim>\<open>disconnect\<close> handler after that.
  \<^item> \<^verbatim>\<open>socket.emit\<close> goes to the socket itself; \<^verbatim>\<open>io.emit\<close> to every connected socket;
    \<^verbatim>\<open>io.to(l)\<close> to the subscribers of \<open>l\<close>: this is also how line 191 addresses one
    connection, by the label that is its id.
  \<^item> \<^verbatim>\<open>socket.to(l)\<close> goes to the subscribers of \<open>l\<close> except the subscribers of the label
    that is the id of the sending socket, which is how the library leaves the sender out.
\<close>

record net =
  conns :: "socket_id list"
  subs :: "(socket_id \<times> string) list"

definition members :: "net \<Rightarrow> string \<Rightarrow> socket_id list" where
  "members n l = map fst (filter (\<lambda>p. snd p = l) (subs n))"

text \<open>
  Modelled from the spec: what the transport does when a socket connects and when a
  connection closes, by the rules above.
\<close>

definition net_connect :: "socket_id \<Rightarrow> net \<Rightarrow> net" where
  "net_connect i n = n\<lparr>conns := set_add i (conns n), subs := set_add (i, i) (subs n)\<rparr>"

definition net_close :: "socket_id \<Rightarrow> net \<Rightarrow> net" where
  "net_close i n =
     n\<lparr>conns := set_delete i (conns n), subs := filter (\<lambda>p. fst p \<noteq> i) (subs n)\<rparr>"

text \<open>
  Modelled from the spec: the sockets that receive an emission, by the rules above, in the
  order in which they subscribed (for \<^verbatim>\<open>io.emit\<close>: connected).
\<close>

fun receivers :: "net \<Rightarrow> target \<Rightarrow> socket_id list" where
  "receivers n (Socket i) = [i]"
| "receivers n (IoTo l) = members n l"
| "receivers n IoAll = conns n"
| "receivers n (SocketTo i l) = filter (\<lambda>j. j \<notin> set (members n i)) (members n l)"

text \<open>
  The calls of one handler run, carried out in their order: the subscriptions change
  with each \<^verbatim>\<open>join\<close> and \<^verbatim>\<open>leave\<close>, and an emission is delivered to those who receive it by
  the subscriptions of that moment. The result is the transport afterwards and the list
  of deliveries, each a socket and the event it gets.
\<close>

fun deliver :: "net \<Rightarrow> action list \<Rightarrow> net \<times> (socket_id \<times> event) list" where
  "deliver n [] = (n, [])"
| "deliver n (Emit t e # as) =
     (case deliver n as of (n', ds) \<Rightarrow> (n', map (\<lambda>j. (j, e)) (receivers n t) @ ds))"
| "deliver n (Join i l # as) = deliver (n\<lparr>subs := set_add (i, l) (subs n)\<rparr>) as"
| "deliver n (Leave i l # as) = deliver (n\<lparr>subs := set_delete (i, l) (subs n)\<rparr>) as"

text \<open>
  The server together with its transport. A socket connects, or a connected socket sends
  an event; \<open>In_disconnect\<close> is the closing of the connection. An event from a socket that is
  not connected does not exist, and \<open>serve\<close> ignores it.
\<close>

datatype net_event = Connect socket_id | From socket_id inbound

fun serve ::
  "server \<times> net \<Rightarrow> clock \<Rightarrow> net_event
     \<Rightarrow> js_error + ((server \<times> net) \<times> (socket_id \<times> event) list)" where
  "serve (s, n) clk (Connect i) = Inr ((s, net_connect i n), [])"
| "serve (s, n) clk (From i e) =
     (if i \<notin> set (conns n) then Inr ((s, n), [])
      else case handle s clk i e of
        Inl err \<Rightarrow> Inl err
      | Inr (s', out) \<Rightarrow>
          (case deliver (if e = In_disconnect then net_close i n else n) out of
             (n', ds) \<Rightarrow> Inr ((s', n'), ds)))"

fun serve_all :: "server \<times> net \<Rightarrow> clock \<Rightarrow> net_event list \<Rightarrow> js_error + (server \<times> net)" where
  "serve_all w clk [] = Inr w"
| "serve_all w clk (e # es) =
     (case serve w clk e of
        Inl err \<Rightarrow> Inl err
      | Inr (w', ds) \<Rightarrow> serve_all w' clk es)"

text \<open>The server after the module has been loaded, with no socket connected.\<close>

definition start :: "server \<times> net" where
  "start = (init, \<lparr>conns = [], subs = []\<rparr>)"

subsection \<open>Reading a trace\<close>

text \<open>The emissions of a trace, and those that carry a given kind of event.\<close>

fun emissions :: "action list \<Rightarrow> (target \<times> event) list" where
  "emissions [] = []"
| "emissions (Emit t e # as) = (t, e) # emissions as"
| "emissions (Join i l # as) = emissions as"
| "emissions (Leave i l # as) = emissions as"

fun is_receive_message :: "event \<Rightarrow> bool" where
  "is_receive_message (receive_message m) = True"
| "is_receive_message e = False"

fun is_error_message :: "event \<Rightarrow> bool" where
  "is_error_message (error_message m) = True"
| "is_error_message e = False"

text \<open>The events a trace sends with \<^verbatim>\<open>io.to(l)\<close>, each with its label \<open>l\<close>.\<close>

fun room_broadcasts :: "action list \<Rightarrow> (string \<times> event) list" where
  "room_broadcasts [] = []"
| "room_broadcasts (Emit (IoTo l) e # as) = (l, e) # room_broadcasts as"
| "room_broadcasts (a # as) = room_broadcasts as"

text \<open>The \<^verbatim>\<open>user_joined\<close> announcements of a trace.\<close>

fun is_user_joined :: "event \<Rightarrow> bool" where
  "is_user_joined (user_joined i n r) = True"
| "is_user_joined e = False"

definition joined_emissions :: "action list \<Rightarrow> (target \<times> event) list" where
  "joined_emissions out = filter (\<lambda>(t, e). is_user_joined e) (emissions out)"

text \<open>The names of the users the server knows, in the order of the map.\<close>

definition usernames :: "server \<Rightarrow> string list" where
  "usernames s = map (\<lambda>p. username (snd p)) (users s)"

text \<open>The session that an accepted join_chat stores for the name \<open>n\<close>.\<close>

definition new_session :: "string \<Rightarrow> user_data" where
  "new_session n = \<lparr>username = n, currentRoom = DEFAULT_ROOM\<rparr>"

subsection \<open>Rejections\<close>

text \<open>
  The four guards of the handlers that answer with \<^verbatim>\<open>error_message\<close> and return:
  line 43 (the name is falsy, for a string: empty), line 50 (a user with this name
  exists), lines 95, 148 and 167 (the socket has no entry in \<^verbatim>\<open>users\<close>) and line 175
  (the receiver has none).
\<close>

datatype rejection = EmptyName | NameTaken | NotRegistered | RecipientOffline

definition rejected :: "server \<Rightarrow> socket_id \<Rightarrow> inbound \<Rightarrow> rejection option" where
  "rejected s i e =
     (case e of
        In_join_chat uname \<Rightarrow>
          (if uname = '''' then Some EmptyName
           else if find (\<lambda>u. username u = uname) (map snd (users s)) \<noteq> None then Some NameTaken
           else None)
      | In_join_room r \<Rightarrow> (if map_of (users s) i = None then Some NotRegistered else None)
      | In_send_message m \<Rightarrow> (if map_of (users s) i = None then Some NotRegistered else None)
      | In_send_private_message j m \<Rightarrow>
          (if map_of (users s) i = None then Some NotRegistered
           else if map_of (users s) j = None then Some RecipientOffline
           else None)
      | In_typing_start r \<Rightarrow> None
      | In_typing_stop r \<Rightarrow> None
      | In_disconnect \<Rightarrow> None)"

definition error_emissions :: "action list \<Rightarrow> (target \<times> event) list" where
  "error_emissions out = filter (\<lambda>(t, e). is_error_message e) (emissions out)"

definition receive_emissions :: "action list \<Rightarrow> (target \<times> event) list" where
  "receive_emissions out = filter (\<lambda>(t, e). is_receive_message e) (emissions out)"




subsection \<open>States and a clock for the examples\<close>

definition fixed_clock :: clock where
  "fixed_clock k = ''2025-01-01T00:00:00.000Z''"

text \<open>Socket \<open>c1\<close> has joined the chat as alice.\<close>

definition alice_joined :: server where
  "alice_joined =
     \<lparr>users = [(''c1'', \<lparr>username = ''alice'', currentRoom = ''general''\<rparr>)],
      rooms = [(''general'', \<lparr>name = ''General Chat'', users_set = [''c1'']\<rparr>)]\<rparr>"

text \<open>After that, socket \<open>c2\<close> has joined as bob.\<close>

definition alice_bob :: server where
  "alice_bob =
     \<lparr>users = [(''c1'', \<lparr>username = ''alice'', currentRoom = ''general''\<rparr>),
               (''c2'', \<lparr>username = ''bob'', currentRoom = ''general''\<rparr>)],
      rooms = [(''general'', \<lparr>name = ''General Chat'', users_set = [''c1'', ''c2'']\<rparr>)]\<rparr>"

text \<open>Socket \<open>c1\<close> has joined as alice and then moved to the room whose name is empty.\<close>

definition alice_unnamed_room :: server where
  "alice_unnamed_room =
     \<lparr>users = [(''c1'', \<lparr>username = ''alice'', currentRoom = ''''\<rparr>)],
      rooms = [(''general'', \<lparr>name = ''General Chat'', users_set = []\<rparr>),
               ('''', \<lparr>name = '''', users_set = [''c1'']\<rparr>)]\<rparr>"

section \<open>Properties\<close>

subsection \<open>The example states are states of the server\<close>

lemmas handler_defs =
  join_chat_def join_room_def leave_current_def create_room_def enter_room_def
  send_message_def send_private_message_def typing_start_def typing_stop_def disconnect_def
  room_add_user_def room_delete_user_def emit_room_users_def room_users_def usernames_of_def
  system_message_def set_add_def set_delete_def DEFAULT_ROOM_def List.map_filter_def

lemma run_alice_joined:
  "\<exists>out. run init clk [(''c1'', In_join_chat ''alice'')] = Inr (alice_joined, out)"
  by (simp add: init_def alice_joined_def handler_defs)

lemma run_alice_bob:
  "\<exists>out. run init clk [(''c1'', In_join_chat ''alice''), (''c2'', In_join_chat ''bob'')]
           = Inr (alice_bob, out)"
  by (simp add: init_def alice_bob_def handler_defs)

lemma run_reachable:
  "reachable s \<Longrightarrow> run s clk es = Inr (s', out) \<Longrightarrow> reachable s'"
proof (induction es arbitrary: s out)
  case Nil
  then show ?case by simp
next
  case (Cons p es)
  obtain i e where p: "p = (i, e)" by (cases p)
  from Cons.prems(2) p obtain s1 out1 s2 out2
    where h: "handle s clk i e = Inr (s1, out1)" and r: "run s1 clk es = Inr (s2, out2)"
      and s': "s' = s2"
    by (auto split: sum.splits prod.splits)
  from Cons.prems(1) h have "reachable s1" by (rule reachable_step)
  with r s' show ?case using Cons.IH by blast
qed

lemma reachable_alice_joined: "reachable alice_joined"
  using run_alice_joined [of fixed_clock] run_reachable [OF reachable_init] by blast

lemma reachable_alice_bob: "reachable alice_bob"
  using run_alice_bob [of fixed_clock] run_reachable [OF reachable_init] by blast

lemma run_alice_unnamed_room:
  "\<exists>out. run init clk [(''c1'', In_join_chat ''alice''), (''c1'', In_join_room '''')]
           = Inr (alice_unnamed_room, out)"
  by (simp add: init_def alice_unnamed_room_def handler_defs Let_def)

lemma reachable_alice_unnamed_room: "reachable alice_unnamed_room"
  using run_alice_unnamed_room [of fixed_clock] run_reachable [OF reachable_init] by blast

subsection \<open>How the handlers change the rooms\<close>

lemma room_users_room_delete_user:
  "room_users (room_delete_user r i s) r' =
     (if r' = r then removeAll i (room_users s r) else room_users s r')"
  by (simp add: room_users_def room_delete_user_def set_delete_def update_conv'
      split: option.splits)

lemma users_room_delete_user [simp]: "users (room_delete_user r i s) = users s"
  by (simp add: room_delete_user_def split: option.splits)

lemma map_of_SomeD_key: "map_of al k = Some v \<Longrightarrow> k \<in> fst ` set al"
  by (metis domI dom_map_of_conv_image_fst)

lemma map_of_None_key: "map_of al k = None \<Longrightarrow> k \<notin> fst ` set al"
  by (simp add: map_of_eq_None_iff)

lemma keys_room_delete_user [simp]:
  "map fst (rooms (room_delete_user r i s)) = map fst (rooms s)"
  by (auto simp: room_delete_user_def update_keys map_of_eq_None_iff split: option.splits)

lemma map_of_rooms_room_delete_user [simp]:
  "(map_of (rooms (room_delete_user r i s)) r' = None) = (map_of (rooms s) r' = None)"
  by (simp add: map_of_eq_None_iff flip: set_map)

lemma create_room_state:
  "users (fst (create_room s r)) = users s"
  "room_users (fst (create_room s r)) r' = room_users s r'"
  "map fst (rooms (fst (create_room s r))) =
     map fst (rooms s) @ (if map_of (rooms s) r = None then [r] else [])"
  "map_of (rooms (fst (create_room s r))) r \<noteq> None"
  by (auto simp: create_room_def Let_def room_users_def update_conv' update_keys
      dest: map_of_None_key)

lemma create_room_out:
  "snd (create_room s r) =
     (if map_of (rooms s) r = None
      then [Emit IoAll (available_rooms (map fst (rooms s) @ [r]))] else [])"
  by (auto simp: create_room_def Let_def update_keys dest: map_of_None_key)

lemma room_add_user_present:
  "map_of (rooms s) r \<noteq> None \<Longrightarrow>
   \<exists>s'. room_add_user r i s = Inr s' \<and> users s' = users s
     \<and> map fst (rooms s') = map fst (rooms s)
     \<and> (\<forall>r'. room_users s' r' = (if r' = r then set_add i (room_users s r) else room_users s r'))"
  by (auto simp: room_add_user_def room_users_def update_conv' update_keys
      dest: map_of_SomeD_key split: option.splits)

text \<open>What join_room does for a socket with a session, in terms of the state before.\<close>

lemma join_room_active:
  assumes u: "map_of (users s) i = Some u"
    and s': "s' = fst (join_room s clk i r)"
  shows "snd (join_room s clk i r) =
            (if currentRoom u \<noteq> [] then
               [Leave i (currentRoom u),
                Emit (IoTo (currentRoom u))
                  (room_users_update (currentRoom u)
                    (usernames_of (users s) (removeAll i (room_users s (currentRoom u))))),
                Emit (IoTo (currentRoom u))
                  (receive_message
                    (system_message (username u @ '' has left the room.'') (clk 0)
                      (currentRoom u)))]
             else [])
            @ (if map_of (rooms s) r = None
               then [Emit IoAll (available_rooms (map fst (rooms s) @ [r]))] else [])
            @ [Join i r,
               Emit (IoTo r) (room_users_update r (usernames_of (users s') (room_users s' r))),
               Emit (IoTo r)
                 (receive_message
                   (system_message (username u @ '' has joined the room.'')
                     (clk (if currentRoom u \<noteq> [] then 1 else 0)) r)),
               Emit (Socket i) (room_changed r)]"
    and "users s' = AList.update i (u\<lparr>currentRoom := r\<rparr>) (users s)"
    and "map fst (rooms s') = map fst (rooms s) @ (if map_of (rooms s) r = None then [r] else [])"
    and "room_users s' r' =
           (let before = (if currentRoom u \<noteq> [] \<and> r' = currentRoom u
                          then removeAll i (room_users s r') else room_users s r')
            in if r' = r then set_add i before else before)"
proof -
  define s1 where "s1 = (if currentRoom u \<noteq> '''' then room_delete_user (currentRoom u) i s else s)"
  define s2 where "s2 = fst (create_room s1 r)"
  define s2u where "s2u = s2\<lparr>users := AList.update i (u\<lparr>currentRoom := r\<rparr>) (users s2)\<rparr>"
  have s1_users: "users s1 = users s" and s1_keys: "map fst (rooms s1) = map fst (rooms s)"
    and s1_none: "(map_of (rooms s1) r = None) = (map_of (rooms s) r = None)"
    by (simp_all add: s1_def)
  have s1_room: "room_users s1 r' =
      (if currentRoom u \<noteq> '''' \<and> r' = currentRoom u
       then removeAll i (room_users s r') else room_users s r')" for r'
    by (simp add: s1_def room_users_room_delete_user)
  have present: "map_of (rooms s2u) r \<noteq> None"
    by (simp add: s2u_def s2_def create_room_state)
  then obtain s3 where s3: "room_add_user r i s2u = Inr s3" "users s3 = users s2u"
      "map fst (rooms s3) = map fst (rooms s2u)"
      "\<And>r'. room_users s3 r' = (if r' = r then set_add i (room_users s2u r) else room_users s2u r')"
    using room_add_user_present [of s2u r i] by blast
  have s2u_room: "room_users s2u r' = room_users s1 r'" for r'
    using create_room_state(2) [of s1 r r'] by (simp add: s2u_def s2_def room_users_def)
  define k :: nat where "k = (if currentRoom u \<noteq> [] then 1 else 0)"
  define out1 where "out1 = (if currentRoom u \<noteq> [] then snd (leave_current s (clk 0) i u) else [])"
  have leave: "(if currentRoom u \<noteq> [] then
                  (case leave_current s (clk 0) i u of (s', out') \<Rightarrow> (s', out', Suc 0))
                else (s, [], 0)) = (s1, out1, k)"
    by (simp add: s1_def out1_def k_def leave_current_def Let_def)
  define out2 where "out2 = snd (create_room s1 r)"
  have cr: "create_room s1 r = (s2, out2)"
    by (simp add: s2_def out2_def)
  have en: "enter_room s2 ts i u r =
      (s3, [Join i r, emit_room_users s3 r,
            Emit (IoTo r)
              (receive_message (system_message (username u @ '' has joined the room.'') ts r)),
            Emit (Socket i) (room_changed r)])" for ts
    using s3(1) by (simp add: enter_room_def Let_def flip: s2u_def)
  have run: "join_room s clk i r =
      (s3,
       out1 @ out2
       @ [Join i r, emit_room_users s3 r,
          Emit (IoTo r)
            (receive_message
              (system_message (username u @ '' has joined the room.'') (clk k) r)),
          Emit (Socket i) (room_changed r)])"
    unfolding join_room_def u option.case Let_def leave prod.case cr en ..
  have s3': "s' = s3"
    by (simp add: s' run)
  show "snd (join_room s clk i r) =
            (if currentRoom u \<noteq> [] then
               [Leave i (currentRoom u),
                Emit (IoTo (currentRoom u))
                  (room_users_update (currentRoom u)
                    (usernames_of (users s) (removeAll i (room_users s (currentRoom u))))),
                Emit (IoTo (currentRoom u))
                  (receive_message
                    (system_message (username u @ '' has left the room.'') (clk 0)
                      (currentRoom u)))]
             else [])
            @ (if map_of (rooms s) r = None
               then [Emit IoAll (available_rooms (map fst (rooms s) @ [r]))] else [])
            @ [Join i r,
               Emit (IoTo r) (room_users_update r (usernames_of (users s') (room_users s' r))),
               Emit (IoTo r)
                 (receive_message
                   (system_message (username u @ '' has joined the room.'')
                     (clk (if currentRoom u \<noteq> [] then 1 else 0)) r)),
               Emit (Socket i) (room_changed r)]"
    by (simp add: run s3' create_room_out s1_none s1_keys k_def out1_def out2_def
        leave_current_def Let_def emit_room_users_def room_users_room_delete_user)
  show "users s' = AList.update i (u\<lparr>currentRoom := r\<rparr>) (users s)"
    by (simp add: s3' s3 s2u_def s2_def create_room_state s1_users)
  show "map fst (rooms s') = map fst (rooms s) @ (if map_of (rooms s) r = None then [r] else [])"
    by (simp add: s3' s3 s2u_def s2_def create_room_state s1_keys s1_none)
  show "room_users s' r' =
           (let before = (if currentRoom u \<noteq> [] \<and> r' = currentRoom u
                          then removeAll i (room_users s r') else room_users s r')
            in if r' = r then set_add i before else before)"
    by (simp add: s3' s3 s2u_room s1_room Let_def)
qed

subsection \<open>How join_chat changes the users\<close>

lemma find_username_None:
  "(find (\<lambda>u. username u = n) (map snd us) = None) = (n \<notin> set (map (\<lambda>p. username (snd p)) us))"
  by (auto simp: find_None_iff)

lemma usernames_update_subset:
  "set (map (\<lambda>p. username (snd p)) (AList.update i v us))
     \<subseteq> insert (username v) (set (map (\<lambda>p. username (snd p)) us))"
  by (induction us) auto

lemma usernames_update_distinct:
  "distinct (map (\<lambda>p. username (snd p)) us) \<Longrightarrow>
   username v \<notin> set (map (\<lambda>p. username (snd p)) us) \<Longrightarrow>
   distinct (map (\<lambda>p. username (snd p)) (AList.update i v us))"
proof (induction us)
  case Nil
  then show ?case by simp
next
  case (Cons p us)
  obtain j d where p: "p = (j, d)" by (cases p)
  show ?case
  proof (cases "j = i")
    case True
    with Cons.prems p show ?thesis by auto
  next
    case False
    have "username d \<notin> set (map (\<lambda>p. username (snd p)) (AList.update i v us))"
      using usernames_update_subset [of i v us] Cons.prems p by auto
    moreover have "distinct (map (\<lambda>p. username (snd p)) (AList.update i v us))"
      using Cons p by simp
    ultimately show ?thesis using False p by simp
  qed
qed

text \<open>
  join_chat with a name that is not empty and that no user has, on a state that has the
  default room: the handler does not throw, and this is what it does.
\<close>

lemma join_chat_accepts:
  assumes "uname \<noteq> ''''" and "uname \<notin> set (usernames s)"
    and "map_of (rooms s) DEFAULT_ROOM \<noteq> None"
  shows "\<exists>s' rest. join_chat s clk i uname =
             Inr (s', Join i DEFAULT_ROOM # Emit IoAll (user_joined i uname DEFAULT_ROOM) # rest)
           \<and> joined_emissions rest = [] \<and> error_emissions rest = []
           \<and> users s' = AList.update i \<lparr>username = uname, currentRoom = DEFAULT_ROOM\<rparr> (users s)
           \<and> map fst (rooms s') = map fst (rooms s)
           \<and> (\<forall>r'. room_users s' r' =
                  (if r' = DEFAULT_ROOM then set_add i (room_users s r') else room_users s r'))"
proof -
  define s1 where
    "s1 = s\<lparr>users := AList.update i \<lparr>username = uname, currentRoom = DEFAULT_ROOM\<rparr> (users s)\<rparr>"
  have "map_of (rooms s1) DEFAULT_ROOM \<noteq> None"
    using assms(3) by (simp add: s1_def)
  then obtain s2 where s2: "room_add_user DEFAULT_ROOM i s1 = Inr s2" "users s2 = users s1"
      "map fst (rooms s2) = map fst (rooms s1)"
      "\<And>r'. room_users s2 r' =
         (if r' = DEFAULT_ROOM then set_add i (room_users s1 DEFAULT_ROOM) else room_users s1 r')"
    using room_add_user_present [of s1 DEFAULT_ROOM i] by blast
  have none: "find (\<lambda>u. username u = uname) (map snd (users s)) = None"
    using assms(2) by (simp add: find_username_None usernames_def)
  have same: "room_users s1 r' = room_users s r'" for r'
    by (simp add: s1_def room_users_def)
  show ?thesis
    apply (rule exI [of _ s2])
    using assms(1) none s2(1)
    apply (simp add: join_chat_def Let_def emit_room_users_def joined_emissions_def
        error_emissions_def flip: s1_def)
    apply (simp add: s2 same)
    apply (simp add: s1_def)
    done
qed

lemma join_chat_default_room_stays:
  "join_chat s clk i uname = Inr (s', out) \<Longrightarrow> map_of (rooms s) DEFAULT_ROOM \<noteq> None
     \<Longrightarrow> map_of (rooms s') DEFAULT_ROOM \<noteq> None"
  by (auto simp: join_chat_def Let_def room_add_user_def update_conv'
      split: if_splits option.splits)

subsection \<open>What holds in every state the server reaches\<close>

lemma room_users_users_update [simp]: "room_users (s\<lparr>users := us\<rparr>) r = room_users s r"
  by (simp add: room_users_def)

lemma room_users_absent: "map_of (rooms s) r = None \<Longrightarrow> room_users s r = []"
  by (simp add: room_users_def)

lemma disconnect_active:
  assumes "map_of (users s) i = Some u" and "s' = fst (disconnect s clk i)"
  shows "users s' = AList.delete i (users s)"
    and "map fst (rooms s') = map fst (rooms s)"
    and "room_users s' r' =
           (if r' = currentRoom u \<and> currentRoom u \<noteq> [] then removeAll i (room_users s r')
            else room_users s r')"
  using assms
  by (auto simp: disconnect_def Let_def room_users_room_delete_user room_users_absent)

lemma default_room_by_keys:
  "map fst (rooms s') = map fst (rooms s) @ extra \<Longrightarrow> map_of (rooms s) DEFAULT_ROOM \<noteq> None
     \<Longrightarrow> map_of (rooms s') DEFAULT_ROOM \<noteq> None"
  by (metis Un_iff map_of_eq_None_iff set_append set_map)

lemma handle_keeps_default_room:
  assumes "handle s clk i e = Inr (s', out)" and "map_of (rooms s) DEFAULT_ROOM \<noteq> None"
  shows "map_of (rooms s') DEFAULT_ROOM \<noteq> None"
proof (cases e)
  case (In_join_chat uname)
  with assms show ?thesis
    by (auto dest: join_chat_default_room_stays)
next
  case (In_join_room r)
  show ?thesis
  proof (cases "map_of (users s) i")
    case None
    with assms In_join_room show ?thesis by (simp add: join_room_def)
  next
    case (Some u)
    from assms(1) In_join_room have "s' = fst (join_room s clk i r)" by simp
    from join_room_active(3) [OF Some this] assms(2) show ?thesis
      by (rule default_room_by_keys)
  qed
next
  case (In_send_message m)
  with assms show ?thesis by (auto simp: send_message_def Let_def split: option.splits)
next
  case (In_send_private_message j m)
  with assms show ?thesis
    by (auto simp: send_private_message_def Let_def split: option.splits)
next
  case (In_typing_start r)
  with assms show ?thesis by (auto simp: typing_start_def split: option.splits)
next
  case (In_typing_stop r)
  with assms show ?thesis by (auto simp: typing_stop_def split: option.splits)
next
  case In_disconnect
  show ?thesis
  proof (cases "map_of (users s) i")
    case None
    with assms In_disconnect show ?thesis by (simp add: disconnect_def)
  next
    case (Some u)
    from assms(1) In_disconnect have "s' = fst (disconnect s clk i)" by simp
    from disconnect_active(2) [OF Some this] assms(2) show ?thesis
      using default_room_by_keys [of s' s "[]"] by simp
  qed
qed

text \<open>The default room is never removed.\<close>

lemma reachable_default_room: "reachable s \<Longrightarrow> map_of (rooms s) DEFAULT_ROOM \<noteq> None"
proof (induction rule: reachable.induct)
  case reachable_init
  show ?case by (simp add: init_def)
next
  case (reachable_step s clk i e s' out)
  from reachable_step.hyps(2) reachable_step.IH show ?case
    by (rule handle_keeps_default_room)
qed

text \<open>
  So the \<^verbatim>\<open>TypeError\<close> of line 83 cannot happen: in a state the server reaches, every
  handler runs to its end.
\<close>

lemma reachable_handle_returns:
  assumes "reachable s"
  shows "\<exists>s' out. handle s clk i e = Inr (s', out)"
proof (cases e)
  case (In_join_chat uname)
  from assms have "map_of (rooms s) DEFAULT_ROOM \<noteq> None"
    by (rule reachable_default_room)
  with In_join_chat show ?thesis
    by (auto simp: join_chat_def Let_def room_add_user_def split: option.splits)
qed simp_all

text \<open>
  One half of the relation between sessions and occupants holds in every state the server
  reaches: a socket with a session is an occupant of the session's current room.
\<close>

lemma handle_keeps_sessions_in_rooms:
  assumes h: "handle s clk i e = Inr (s', out)"
    and inv: "\<And>j u. map_of (users s) j = Some u \<Longrightarrow> j \<in> set (room_users s (currentRoom u))"
    and j: "map_of (users s') j = Some v"
  shows "j \<in> set (room_users s' (currentRoom v))"
proof (cases e)
  case (In_join_chat uname)
  show ?thesis
  proof (cases "uname \<noteq> '''' \<and> uname \<notin> set (usernames s)")
    case False
    with h In_join_chat have "s' = s"
      by (auto simp: join_chat_def find_username_None usernames_def
          split: option.splits if_splits)
    with inv j show ?thesis by simp
  next
    case True
    then have "find (\<lambda>u. username u = uname) (map snd (users s)) = None"
      by (simp add: find_username_None usernames_def)
    with h In_join_chat True have "map_of (rooms s) DEFAULT_ROOM \<noteq> None"
      by (auto simp: join_chat_def Let_def room_add_user_def split: option.splits)
    from join_chat_accepts [of uname s clk i] True this h In_join_chat
    have us: "users s' = AList.update i \<lparr>username = uname, currentRoom = DEFAULT_ROOM\<rparr> (users s)"
      and rs: "\<And>r'. room_users s' r' =
                  (if r' = DEFAULT_ROOM then set_add i (room_users s r') else room_users s r')"
      by auto
    show ?thesis
    proof (cases "j = i")
      case True
      with j us show ?thesis by (auto simp: update_conv' rs set_add_def)
    next
      case False
      with j us have "map_of (users s) j = Some v" by (simp add: update_conv')
      from inv [OF this] show ?thesis by (auto simp: rs set_add_def)
    qed
  qed
next
  case (In_join_room r)
  show ?thesis
  proof (cases "map_of (users s) i")
    case None
    with h In_join_room have "s' = s" by (simp add: join_room_def)
    with inv j show ?thesis by simp
  next
    case (Some u)
    from h In_join_room have s': "s' = fst (join_room s clk i r)" by simp
    note step = join_room_active [OF Some s']
    show ?thesis
    proof (cases "j = i")
      case True
      with j step(2) have "currentRoom v = r" by (auto simp: update_conv')
      then show ?thesis using True by (simp add: step(4) Let_def set_add_def)
    next
      case False
      with j step(2) have "map_of (users s) j = Some v" by (simp add: update_conv')
      from inv [OF this] False show ?thesis by (auto simp: step(4) Let_def set_add_def)
    qed
  qed
next
  case (In_send_message m)
  with h have "s' = s" by (auto simp: send_message_def Let_def split: option.splits)
  with inv j show ?thesis by simp
next
  case (In_send_private_message k m)
  with h have "s' = s" by (auto simp: send_private_message_def Let_def split: option.splits)
  with inv j show ?thesis by simp
next
  case (In_typing_start r)
  with h have "s' = s" by (auto simp: typing_start_def split: option.splits)
  with inv j show ?thesis by simp
next
  case (In_typing_stop r)
  with h have "s' = s" by (auto simp: typing_stop_def split: option.splits)
  with inv j show ?thesis by simp
next
  case In_disconnect
  show ?thesis
  proof (cases "map_of (users s) i")
    case None
    with h In_disconnect have "s' = s" by (simp add: disconnect_def)
    with inv j show ?thesis by simp
  next
    case (Some u)
    from h In_disconnect have s': "s' = fst (disconnect s clk i)" by simp
    note step = disconnect_active [OF Some s']
    from j step(1) have ne: "j \<noteq> i" by (auto simp: delete_conv')
    with j step(1) have "map_of (users s) j = Some v" by (simp add: delete_conv')
    from inv [OF this] ne show ?thesis by (auto simp: step(3))
  qed
qed

lemma reachable_session_in_current_room:
  "reachable s \<Longrightarrow> map_of (users s) j = Some v \<Longrightarrow> j \<in> set (room_users s (currentRoom v))"
proof (induction arbitrary: j v rule: reachable.induct)
  case reachable_init
  then show ?case by (simp add: init_def)
next
  case (reachable_step s clk i e s' out)
  from reachable_step.hyps(2) reachable_step.IH reachable_step.prems
  show ?case by (rule handle_keeps_sessions_in_rooms)
qed

subsection \<open>C3: which names join_chat rejects as empty\<close>



subsection \<open>C4: a rejected operation changes nothing\<close>

text \<open>
  C4: when an operation is rejected (\<open>EmptyName\<close>, \<open>NameTaken\<close>, \<open>NotRegistered\<close>,
  \<open>RecipientOffline\<close>), the handler returns the state it was given and does one thing
  only: it sends one \<^verbatim>\<open>error_message\<close> with \<^verbatim>\<open>socket.emit\<close>, which reaches the socket of
  the caller and no other. Conversely an operation that is not rejected sends no
  \<^verbatim>\<open>error_message\<close>, so the four rejections are all the error paths there are.
\<close>

theorem C4_rejection_leaves_state:
  "(\<forall>k. rejected s i e = Some k \<longrightarrow>
      (\<exists>txt. handle s clk i e = Inr (s, [Emit (Socket i) (error_message txt)]))
      \<and> receivers n (Socket i) = [i])
   \<and> (rejected s i e = None \<longrightarrow>
      (\<forall>s' out. handle s clk i e = Inr (s', out) \<longrightarrow> error_emissions out = []))"
  by (cases e)
    (auto simp: rejected_def error_emissions_def join_chat_def Let_def room_add_user_def
      emit_room_users_def join_room_def leave_current_def create_room_def enter_room_def
      send_message_def send_private_message_def typing_start_def typing_stop_def
      disconnect_def
      split: option.splits sum.splits if_splits)

text \<open>
  Each of the four rejections at a concrete input, with the state returned unchanged, and
  an accepted message next to them.
\<close>

theorem C4_rejection_leaves_state_witness:
  "rejected init ''c1'' (In_join_chat '''') = Some EmptyName
   \<and> handle init fixed_clock ''c1'' (In_join_chat '''')
       = Inr (init, [Emit (Socket ''c1'') (error_message ''Username cannot be empty.'')])
   \<and> rejected alice_joined ''c2'' (In_join_chat ''alice'') = Some NameTaken
   \<and> handle alice_joined fixed_clock ''c2'' (In_join_chat ''alice'')
       = Inr (alice_joined,
              [Emit (Socket ''c2'')
                 (error_message ''Username already taken. Please choose another.'')])
   \<and> rejected alice_joined ''c2'' (In_join_room ''dev'') = Some NotRegistered
   \<and> handle alice_joined fixed_clock ''c2'' (In_join_room ''dev'')
       = Inr (alice_joined,
              [Emit (Socket ''c2'') (error_message ''Please set your username first.'')])
   \<and> rejected alice_joined ''c1'' (In_send_private_message ''c2'' ''hi'') = Some RecipientOffline
   \<and> handle alice_joined fixed_clock ''c1'' (In_send_private_message ''c2'' ''hi'')
       = Inr (alice_joined,
              [Emit (Socket ''c1'') (error_message ''User with ID c2 is not online.'')])
   \<and> rejected alice_joined ''c1'' (In_send_message ''hi'') = None
   \<and> error_emissions (snd (send_message alice_joined fixed_clock ''c1'' ''hi'')) = []"
  using C4_rejection_leaves_state [of init "''c1''" "In_join_chat ''''" fixed_clock]
    C4_rejection_leaves_state [of alice_joined "''c1''" "In_send_message ''hi''" fixed_clock]
  by (simp add: rejected_def init_def alice_joined_def handler_defs error_emissions_def)

subsection \<open>What the transport delivers\<close>

lemmas net_defs = members_def net_connect_def net_close_def start_def

text \<open>
  The sends of send_private_message for a sender with a session: nothing changes in the
  server, and the handler emits the same object with \<^verbatim>\<open>socket.emit\<close> and with
  \<^verbatim>\<open>io.to(y)\<close>, or one error when \<open>y\<close> has no session.
\<close>

lemma private_message_sends:
  assumes "map_of (users s) x = Some xu"
  shows "(\<forall>yu. map_of (users s) y = Some yu \<longrightarrow>
            (\<exists>m. send_private_message s clk x y body =
                    (s, [Emit (Socket x) (receive_message m), Emit (IoTo y) (receive_message m)])
               \<and> message m = body \<and> isPrivate m = Some True
               \<and> sender m = username xu \<and> receiver m = Some (username yu)))
       \<and> (map_of (users s) y = None \<longrightarrow>
            (\<exists>txt. send_private_message s clk x y body =
                        (s, [Emit (Socket x) (error_message txt)])))"
  using assms
  by (simp add: send_private_message_def Let_def)

text \<open>
  What is delivered: one copy to the sender and one copy to every subscriber of the label
  that is the id of \<open>y\<close>. So the deliveries are two, to \<open>x\<close> and to \<open>y\<close>, exactly when \<open>y\<close>
  and no other socket is subscribed to that label.
\<close>

lemma private_message_deliveries:
  assumes "x \<in> set (conns n)" and "map_of (users s) x = Some xu"
    and "map_of (users s) y = Some yu"
  shows "serve (s, n) clk (From x (In_send_private_message y body)) =
           Inr ((s, n),
                (x, receive_message
                      \<lparr>sender = username xu, message = body, timestamp = clk 0, room = None,
                       isPrivate = Some True, receiver = Some (username yu)\<rparr>)
                # map (\<lambda>j. (j, receive_message
                      \<lparr>sender = username xu, message = body, timestamp = clk 0, room = None,
                       isPrivate = Some True, receiver = Some (username yu)\<rparr>))
                    (members n y))"
  using assms by (simp add: send_private_message_def Let_def)

lemma typing_deliveries:
  assumes "x \<in> set (conns n)" and "map_of (users s) x = Some xu"
  shows "serve (s, n) clk (From x (In_typing_start r)) =
           Inr ((s, n), map (\<lambda>j. (j, typing_status (username xu) True r))
                          (filter (\<lambda>j. j \<notin> set (members n x)) (members n r)))"
    and "serve (s, n) clk (From x (In_typing_stop r)) =
           Inr ((s, n), map (\<lambda>j. (j, typing_status (username xu) False r))
                          (filter (\<lambda>j. j \<notin> set (members n x)) (members n r)))"
  using assms by (simp_all add: typing_start_def typing_stop_def)

lemma typing_without_session:
  assumes "map_of (users s) x = None"
  shows "serve (s, n) clk (From x (In_typing_start r)) = Inr ((s, n), [])"
    and "serve (s, n) clk (From x (In_typing_stop r)) = Inr ((s, n), [])"
  using assms by (simp_all add: typing_start_def typing_stop_def)

text \<open>
  Three sockets connect and join the chat as alice, bob and carol. The states below are
  what the server and the transport are after that, after carol has also joined the
  room whose name is the id of bob's socket, and after alice has joined and left again
  the room whose name is the id of her own socket.
\<close>

lemma serve_three_joined:
  "serve_all start clk
     [Connect ''c1'', From ''c1'' (In_join_chat ''alice''),
      Connect ''c2'', From ''c2'' (In_join_chat ''bob''),
      Connect ''c3'', From ''c3'' (In_join_chat ''carol'')] =
   Inr (\<lparr>users = [(''c1'', \<lparr>username = ''alice'', currentRoom = ''general''\<rparr>),
                 (''c2'', \<lparr>username = ''bob'', currentRoom = ''general''\<rparr>),
                 (''c3'', \<lparr>username = ''carol'', currentRoom = ''general''\<rparr>)],
         rooms = [(''general'',
                   \<lparr>name = ''General Chat'', users_set = [''c1'', ''c2'', ''c3'']\<rparr>)]\<rparr>,
        \<lparr>conns = [''c1'', ''c2'', ''c3''],
         subs = [(''c1'', ''c1''), (''c1'', ''general''), (''c2'', ''c2''),
                 (''c2'', ''general''), (''c3'', ''c3''), (''c3'', ''general'')]\<rparr>)"
  by (simp add: net_defs init_def handler_defs Let_def)

subsection \<open>C6: a private message\<close>

text \<open>
  C6 says that a private message from \<open>x\<close> to a recipient \<open>y\<close> with a session is delivered
  exactly twice, once to \<open>x\<close> and once to \<open>y\<close>. Line 191 sends the recipient's copy with
  \<^verbatim>\<open>io.to(receiverSocketId)\<close>, to a label, and line 123 subscribes a socket to whatever
  label its client names as a room. Alice (\<open>c1\<close>), bob (\<open>c2\<close>) and carol (\<open>c3\<close>) have joined
  the chat, and carol has sent join_room with the id of bob's socket as the room name.
  Alice now sends bob a private message: it is delivered three times, and the third copy
  goes to carol, who is neither the sender nor the recipient.
\<close>

theorem C6_private_message_reaches_third_socket:
  "(case serve_all start fixed_clock
           [Connect ''c1'', From ''c1'' (In_join_chat ''alice''),
            Connect ''c2'', From ''c2'' (In_join_chat ''bob''),
            Connect ''c3'', From ''c3'' (In_join_chat ''carol''),
            From ''c3'' (In_join_room ''c2'')] of
      Inl err \<Rightarrow> False
    | Inr (s, n) \<Rightarrow>
        map_of (users s) ''c1'' = Some \<lparr>username = ''alice'', currentRoom = ''general''\<rparr>
        \<and> map_of (users s) ''c2'' = Some \<lparr>username = ''bob'', currentRoom = ''general''\<rparr>
        \<and> serve (s, n) fixed_clock (From ''c1'' (In_send_private_message ''c2'' ''hi'')) =
            Inr ((s, n),
                 [(''c1'', receive_message
                     \<lparr>sender = ''alice'', message = ''hi'', timestamp = fixed_clock 0,
                      room = None, isPrivate = Some True, receiver = Some ''bob''\<rparr>),
                  (''c2'', receive_message
                     \<lparr>sender = ''alice'', message = ''hi'', timestamp = fixed_clock 0,
                      room = None, isPrivate = Some True, receiver = Some ''bob''\<rparr>),
                  (''c3'', receive_message
                     \<lparr>sender = ''alice'', message = ''hi'', timestamp = fixed_clock 0,
                      room = None, isPrivate = Some True, receiver = Some ''bob''\<rparr>)]))"
  by (simp add: net_defs init_def handler_defs Let_def)

subsection \<open>C9: typing indicators\<close>

text \<open>
  C9 says that a typing_status is delivered only to the other occupants of the room named
  in the event, and never to the connection it comes from. Lines 202 and 211 send it with
  \<^verbatim>\<open>socket.to(room)\<close>, where \<^verbatim>\<open>room\<close> is the label the client names; the handlers do not
  look the room up. Alice (\<open>c1\<close>) and bob (\<open>c2\<close>) have joined the chat and are both in the
  room general. Alice sends typing_start with the id of bob's socket as the room: the
  server has no room of that name, so the room has no occupants, and bob receives the
  typing_status.
\<close>

theorem C9_typing_reaches_non_occupant:
  "(case serve_all start fixed_clock
           [Connect ''c1'', From ''c1'' (In_join_chat ''alice''),
            Connect ''c2'', From ''c2'' (In_join_chat ''bob'')] of
      Inl err \<Rightarrow> False
    | Inr (s, n) \<Rightarrow>
        map_of (rooms s) ''c2'' = None
        \<and> room_users s ''c2'' = []
        \<and> serve (s, n) fixed_clock (From ''c1'' (In_typing_start ''c2'')) =
            Inr ((s, n), [(''c2'', typing_status ''alice'' True ''c2'')]))"
  by (simp add: net_defs init_def handler_defs Let_def)

text \<open>
  The sender is left out only as a subscriber of the label that is its own id, and line
  102 unsubscribes a socket from any label that is its current room. Alice joins the room
  whose name is the id of her socket and goes back to general; her next typing_start for
  general is delivered to herself.
\<close>

lemma typing_reaches_sender:
  "(case serve_all start fixed_clock
           [Connect ''c1'', From ''c1'' (In_join_chat ''alice''),
            From ''c1'' (In_join_room ''c1''), From ''c1'' (In_join_room ''general'')] of
      Inl err \<Rightarrow> False
    | Inr (s, n) \<Rightarrow>
        map_of (users s) ''c1'' = Some \<lparr>username = ''alice'', currentRoom = ''general''\<rparr>
        \<and> serve (s, n) fixed_clock (From ''c1'' (In_typing_start ''general'')) =
            Inr ((s, n), [(''c1'', typing_status ''alice'' True ''general'')]))"
  by (simp add: net_defs init_def handler_defs Let_def)

subsection \<open>C10: a private message to oneself\<close>

text \<open>
  C10 says that a socket with a session that sends a private message to itself gets two
  copies of it, and not a single one. The second copy is sent with \<^verbatim>\<open>io.to\<close> to the label
  that is the id of the socket, and line 102 unsubscribes a socket from any label that is
  its current room. Alice (\<open>c1\<close>) joins the chat, joins the room whose name is the id of
  her socket and goes back to general. Her message to herself is then delivered once.
\<close>

theorem C10_self_message_delivered_once:
  "(case serve_all start fixed_clock
           [Connect ''c1'', From ''c1'' (In_join_chat ''alice''),
            From ''c1'' (In_join_room ''c1''), From ''c1'' (In_join_room ''general'')] of
      Inl err \<Rightarrow> False
    | Inr (s, n) \<Rightarrow>
        map_of (users s) ''c1'' = Some \<lparr>username = ''alice'', currentRoom = ''general''\<rparr>
        \<and> serve (s, n) fixed_clock (From ''c1'' (In_send_private_message ''c1'' ''note'')) =
            Inr ((s, n),
                 [(''c1'', receive_message
                     \<lparr>sender = ''alice'', message = ''note'', timestamp = fixed_clock 0,
                      room = None, isPrivate = Some True, receiver = Some ''alice''\<rparr>)]))"
  by (simp add: net_defs init_def handler_defs Let_def)

text \<open>
  Before she does that, while her socket is the only subscriber of its own label, the
  message is delivered twice, as C10 describes.
\<close>

lemma self_message_delivered_twice:
  "serve (alice_joined, \<lparr>conns = [''c1''], subs = [(''c1'', ''c1''), (''c1'', ''general'')]\<rparr>)
     fixed_clock (From ''c1'' (In_send_private_message ''c1'' ''note'')) =
   Inr ((alice_joined, \<lparr>conns = [''c1''], subs = [(''c1'', ''c1''), (''c1'', ''general'')]\<rparr>),
        [(''c1'', receive_message
            \<lparr>sender = ''alice'', message = ''note'', timestamp = fixed_clock 0,
             room = None, isPrivate = Some True, receiver = Some ''alice''\<rparr>),
         (''c1'', receive_message
            \<lparr>sender = ''alice'', message = ''note'', timestamp = fixed_clock 0,
             room = None, isPrivate = Some True, receiver = Some ''alice''\<rparr>)])"
  by (simp add: net_defs alice_joined_def send_private_message_def Let_def)

subsection \<open>C5: the steps of join_room\<close>

text \<open>
  C5 says that for every socket with a session join_room does five things in order, the
  first being to take the socket out of its current room and to tell that room; the
  comment of line 100 says the same (\<^verbatim>\<open>Leave the current room first\<close>). Line 101 guards
  this step with \<^verbatim>\<open>if (user.currentRoom)\<close>, and the empty string is falsy, although lines
  118 to 125 create and enter a room of that name like any other. Socket \<open>c1\<close> below has
  joined the chat as alice and then the room named by the empty string; it joins \<open>dev\<close>.
  The handler does not leave the old room and tells it nothing: the trace starts with the
  announcement of the new room, and \<open>c1\<close> is still an occupant of the old room afterwards.
\<close>

theorem C5_no_leave_from_unnamed_room:
  "map_of (users alice_unnamed_room) ''c1'' = Some \<lparr>username = ''alice'', currentRoom = ''''\<rparr>
   \<and> join_room alice_unnamed_room fixed_clock ''c1'' ''dev'' =
      (\<lparr>users = [(''c1'', \<lparr>username = ''alice'', currentRoom = ''dev''\<rparr>)],
        rooms = [(''general'', \<lparr>name = ''General Chat'', users_set = []\<rparr>),
                 ('''', \<lparr>name = '''', users_set = [''c1'']\<rparr>),
                 (''dev'', \<lparr>name = ''dev'', users_set = [''c1'']\<rparr>)]\<rparr>,
       [Emit IoAll (available_rooms [''general'', '''', ''dev'']),
        Join ''c1'' ''dev'',
        Emit (IoTo ''dev'') (room_users_update ''dev'' [''alice'']),
        Emit (IoTo ''dev'')
          (receive_message
            (system_message ''alice has joined the room.'' (fixed_clock 0) ''dev'')),
        Emit (Socket ''c1'') (room_changed ''dev'')])"
  by (simp add: alice_unnamed_room_def handler_defs Let_def)

text \<open>
  Where the current room \<open>old\<close> of the session is not the empty string, the handler does
  what C5 says, exactly and in this order, for every socket \<open>i\<close> and every room \<open>r\<close>.
  \<^enum> It unsubscribes \<open>i\<close> from \<open>old\<close>, takes \<open>i\<close> out of the occupants of \<open>old\<close>, and sends
    to \<open>old\<close> the names of the remaining occupants and then the message that the user
    has left.
  \<^enum> If the map has no room \<open>r\<close>, it adds the room at the end and sends the list of all
    room ids to everyone.
  \<^enum> It subscribes \<open>i\<close> to \<open>r\<close>, sets the current room of the session to \<open>r\<close> and adds \<open>i\<close>
    to the occupants of \<open>r\<close>.
  \<^enum> It sends to \<open>r\<close> the names of the occupants of \<open>r\<close> as they are now and then the
    message that the user has joined.
  \<^enum> It sends \<^verbatim>\<open>room_changed\<close> with \<open>r\<close> to the socket \<open>i\<close> alone.
  Nothing else is emitted, no other session changes and no other room's occupants change.
\<close>

lemma join_room_steps:
  assumes "map_of (users s) i = Some u" and "currentRoom u \<noteq> ''''"
  shows "\<exists>s'. join_room s clk i r =
           (s',
            [Leave i (currentRoom u),
             Emit (IoTo (currentRoom u))
               (room_users_update (currentRoom u)
                 (usernames_of (users s) (removeAll i (room_users s (currentRoom u))))),
             Emit (IoTo (currentRoom u))
               (receive_message
                 (system_message (username u @ '' has left the room.'') (clk 0)
                   (currentRoom u)))]
            @ (if map_of (rooms s) r = None
               then [Emit IoAll (available_rooms (map fst (rooms s) @ [r]))] else [])
            @ [Join i r,
               Emit (IoTo r) (room_users_update r (usernames_of (users s') (room_users s' r))),
               Emit (IoTo r)
                 (receive_message
                   (system_message (username u @ '' has joined the room.'') (clk 1) r)),
               Emit (Socket i) (room_changed r)])
         \<and> users s' = AList.update i (u\<lparr>currentRoom := r\<rparr>) (users s)
         \<and> map fst (rooms s') = map fst (rooms s) @ (if map_of (rooms s) r = None then [r] else [])
         \<and> (\<forall>r'. room_users s' r' =
               (let before = (if r' = currentRoom u
                              then removeAll i (room_users s r') else room_users s r')
                in if r' = r then set_add i before else before))
         \<and> receivers n (Socket i) = [i]"
proof -
  define s' where "s' = fst (join_room s clk i r)"
  note step = join_room_active [OF assms(1) s'_def]
  have run: "join_room s clk i r = (s', snd (join_room s clk i r))"
    by (simp add: s'_def)
  show ?thesis
    apply (rule exI [of _ s'])
    apply (subst run)
    apply (simp add: step assms(2) Let_def)
    done
qed

lemma join_room_steps_example:
  "map_of (users alice_bob) ''c2'' = Some \<lparr>username = ''bob'', currentRoom = ''general''\<rparr>
   \<and> join_room alice_bob fixed_clock ''c2'' ''dev'' =
      (\<lparr>users = [(''c1'', \<lparr>username = ''alice'', currentRoom = ''general''\<rparr>),
                 (''c2'', \<lparr>username = ''bob'', currentRoom = ''dev''\<rparr>)],
        rooms = [(''general'', \<lparr>name = ''General Chat'', users_set = [''c1'']\<rparr>),
                 (''dev'', \<lparr>name = ''dev'', users_set = [''c2'']\<rparr>)]\<rparr>,
       [Leave ''c2'' ''general'',
        Emit (IoTo ''general'') (room_users_update ''general'' [''alice'']),
        Emit (IoTo ''general'')
          (receive_message
            (system_message ''bob has left the room.'' (fixed_clock 0) ''general'')),
        Emit IoAll (available_rooms [''general'', ''dev'']),
        Join ''c2'' ''dev'',
        Emit (IoTo ''dev'') (room_users_update ''dev'' [''bob'']),
        Emit (IoTo ''dev'')
          (receive_message
            (system_message ''bob has joined the room.'' (fixed_clock 1) ''dev'')),
        Emit (Socket ''c2'') (room_changed ''dev'')])"
proof -
  have u: "map_of (users alice_bob) ''c2'' = Some \<lparr>username = ''bob'', currentRoom = ''general''\<rparr>"
    by (simp add: alice_bob_def)
  have ne: "currentRoom \<lparr>username = ''bob'', currentRoom = ''general''\<rparr> \<noteq> ''''"
    by simp
  have st: "fst (join_room alice_bob fixed_clock ''c2'' ''dev'') =
      \<lparr>users = [(''c1'', \<lparr>username = ''alice'', currentRoom = ''general''\<rparr>),
                 (''c2'', \<lparr>username = ''bob'', currentRoom = ''dev''\<rparr>)],
        rooms = [(''general'', \<lparr>name = ''General Chat'', users_set = [''c1'']\<rparr>),
                 (''dev'', \<lparr>name = ''dev'', users_set = [''c2'']\<rparr>)]\<rparr>"
    by (simp add: alice_bob_def handler_defs Let_def)
  from join_room_steps [OF u ne, of fixed_clock "''dev''"] obtain s'
    where run: "fst (join_room alice_bob fixed_clock ''c2'' ''dev'') = s'"
      and out: "snd (join_room alice_bob fixed_clock ''c2'' ''dev'') =
           [Leave ''c2'' ''general'',
            Emit (IoTo ''general'')
              (room_users_update ''general''
                (usernames_of (users alice_bob) (removeAll ''c2'' (room_users alice_bob ''general'')))),
            Emit (IoTo ''general'')
              (receive_message
                (system_message (''bob'' @ '' has left the room.'') (fixed_clock 0) ''general''))]
           @ (if map_of (rooms alice_bob) ''dev'' = None
              then [Emit IoAll (available_rooms (map fst (rooms alice_bob) @ [''dev'']))] else [])
           @ [Join ''c2'' ''dev'',
              Emit (IoTo ''dev'')
                (room_users_update ''dev'' (usernames_of (users s') (room_users s' ''dev''))),
              Emit (IoTo ''dev'')
                (receive_message
                  (system_message (''bob'' @ '' has joined the room.'') (fixed_clock 1) ''dev'')),
              Emit (Socket ''c2'') (room_changed ''dev'')]"
    by fastforce
  have s': "s' = \<lparr>users = [(''c1'', \<lparr>username = ''alice'', currentRoom = ''general''\<rparr>),
                 (''c2'', \<lparr>username = ''bob'', currentRoom = ''dev''\<rparr>)],
        rooms = [(''general'', \<lparr>name = ''General Chat'', users_set = [''c1'']\<rparr>),
                 (''dev'', \<lparr>name = ''dev'', users_set = [''c2'']\<rparr>)]\<rparr>"
    using run st by simp
  have out': "snd (join_room alice_bob fixed_clock ''c2'' ''dev'') = 
       [Leave ''c2'' ''general'',
        Emit (IoTo ''general'') (room_users_update ''general'' [''alice'']),
        Emit (IoTo ''general'')
          (receive_message
            (system_message ''bob has left the room.'' (fixed_clock 0) ''general'')),
        Emit IoAll (available_rooms [''general'', ''dev'']),
        Join ''c2'' ''dev'',
        Emit (IoTo ''dev'') (room_users_update ''dev'' [''bob'']),
        Emit (IoTo ''dev'')
          (receive_message
            (system_message ''bob has joined the room.'' (fixed_clock 1) ''dev'')),
        Emit (Socket ''c2'') (room_changed ''dev'')]"
    unfolding out s'
    by (simp add: alice_bob_def usernames_of_def room_users_def List.map_filter_def)
  show ?thesis
    using u st out' by (simp add: prod_eq_iff)
qed

subsection \<open>C8: joining the same room twice\<close>

text \<open>
  C8 says that for every socket with a session and every room \<open>R\<close>, two calls of
  join_room with \<open>R\<close> both emit the leave and join broadcasts, and that the socket is then
  an occupant of \<open>R\<close> once and of no other room. The leave half is the step that line 101
  guards with \<^verbatim>\<open>if (user.currentRoom)\<close>, which takes the room named by the empty string
  for no room. Socket \<open>c1\<close> below has joined the chat as alice and then that room, and
  joins \<open>dev\<close> twice. The first call broadcasts the join only, and after the second call
  \<open>c1\<close> is an occupant of \<open>dev\<close> and of the room it never left.
\<close>

theorem C8_unnamed_room_keeps_occupant:
  "map_of (users alice_unnamed_room) ''c1'' = Some \<lparr>username = ''alice'', currentRoom = ''''\<rparr>
   \<and> (case join_room alice_unnamed_room fixed_clock ''c1'' ''dev'' of
         (s1, out1) \<Rightarrow>
           (case join_room s1 fixed_clock ''c1'' ''dev'' of
              (s2, out2) \<Rightarrow>
                room_broadcasts out1 =
                  [(''dev'', room_users_update ''dev'' [''alice'']),
                   (''dev'', receive_message
                      (system_message ''alice has joined the room.'' (fixed_clock 0) ''dev''))]
                \<and> ''c1'' \<in> set (room_users s2 ''dev'')
                \<and> ''c1'' \<in> set (room_users s2 '''')))"
  by (simp add: alice_unnamed_room_def handler_defs Let_def)

text \<open>
  The same guard skips the leave half of the second call when \<open>R\<close> itself is the room
  named by the empty string: alice, in the room general, joins it twice, and the second
  call broadcasts the join only.
\<close>

lemma join_unnamed_room_twice:
  "(case join_room alice_joined fixed_clock ''c1'' '''' of
      (s1, out1) \<Rightarrow>
        (case join_room s1 fixed_clock ''c1'' '''' of
           (s2, out2) \<Rightarrow>
             room_broadcasts out2 =
               [('''', room_users_update '''' [''alice'']),
                ('''', receive_message
                   (system_message ''alice has joined the room.'' (fixed_clock 0) ''''))]))"
  by (simp add: alice_joined_def handler_defs Let_def)

text \<open>
  And a room that kept the socket as an occupant keeps it through both calls. After the
  three events of C1 the socket \<open>c1\<close> has the current room general and is still an
  occupant of \<open>dev\<close>; it joins \<open>lobby\<close> twice and is an occupant of \<open>lobby\<close> and of \<open>dev\<close>.
\<close>

lemma join_room_twice_with_stale_occupancy:
  "(case run init fixed_clock
           [(''c1'', In_join_chat ''alice''), (''c1'', In_join_room ''dev''),
            (''c1'', In_join_chat ''bob''),
            (''c1'', In_join_room ''lobby''), (''c1'', In_join_room ''lobby'')] of
      Inl err \<Rightarrow> False
    | Inr (s, out) \<Rightarrow>
        users s = [(''c1'', \<lparr>username = ''bob'', currentRoom = ''lobby''\<rparr>)]
        \<and> room_users s ''lobby'' = [''c1'']
        \<and> room_users s ''dev'' = [''c1''])"
  by (simp add: init_def handler_defs Let_def)

text \<open>
  Where none of this interferes, two calls in a row do what C8 says. The socket \<open>i\<close> has
  a session, its current room \<open>old\<close> is not the empty string, it is an occupant of no
  room but \<open>old\<close>, and \<open>R\<close> is not the empty string. Then
  each of two calls of join_room with \<open>R\<close> in a row sends, with \<^verbatim>\<open>io.to\<close>, the occupant
  names and the message of leaving to the room left (\<open>old\<close> the first time, \<open>R\<close> the
  second) and then the occupant names and the message of joining to \<open>R\<close>. After the second
  call \<open>i\<close> occurs exactly once among the occupants of \<open>R\<close> and is an occupant of no other
  room; the second call changes no session and no room's set of occupants.
\<close>

lemma join_room_twice:
  assumes "map_of (users s) i = Some u" and "currentRoom u \<noteq> ''''" and "R \<noteq> ''''"
    and "\<forall>r'. i \<in> set (room_users s r') \<longrightarrow> r' = currentRoom u"
  shows "\<exists>s1 out1 s2 out2.
           join_room s clk i R = (s1, out1) \<and> join_room s1 clk' i R = (s2, out2)
         \<and> room_broadcasts out1 =
             [(currentRoom u, room_users_update (currentRoom u)
                 (usernames_of (users s) (removeAll i (room_users s (currentRoom u))))),
              (currentRoom u, receive_message
                 (system_message (username u @ '' has left the room.'') (clk 0) (currentRoom u))),
              (R, room_users_update R (usernames_of (users s1) (room_users s1 R))),
              (R, receive_message
                 (system_message (username u @ '' has joined the room.'') (clk 1) R))]
         \<and> room_broadcasts out2 =
             [(R, room_users_update R (usernames_of (users s1) (removeAll i (room_users s1 R)))),
              (R, receive_message
                 (system_message (username u @ '' has left the room.'') (clk' 0) R)),
              (R, room_users_update R (usernames_of (users s2) (room_users s2 R))),
              (R, receive_message
                 (system_message (username u @ '' has joined the room.'') (clk' 1) R))]
         \<and> count_list (room_users s2 R) i = 1
         \<and> (\<forall>r'. r' \<noteq> R \<longrightarrow> i \<notin> set (room_users s2 r'))
         \<and> users s2 = users s1
         \<and> (\<forall>r'. set (room_users s2 r') = set (room_users s1 r'))"
proof -
  define s1 where "s1 = fst (join_room s clk i R)"
  define out1 where "out1 = snd (join_room s clk i R)"
  note first = join_room_active [OF assms(1) s1_def]
  have j1: "join_room s clk i R = (s1, out1)"
    by (simp add: s1_def out1_def)
  have out1: "room_broadcasts out1 =
             [(currentRoom u, room_users_update (currentRoom u)
                 (usernames_of (users s) (removeAll i (room_users s (currentRoom u))))),
              (currentRoom u, receive_message
                 (system_message (username u @ '' has left the room.'') (clk 0) (currentRoom u))),
              (R, room_users_update R (usernames_of (users s1) (room_users s1 R))),
              (R, receive_message
                 (system_message (username u @ '' has joined the room.'') (clk 1) R))]"
    using assms(2) by (simp add: out1_def first(1))
  have users1: "users s1 = AList.update i (u\<lparr>currentRoom := R\<rparr>) (users s)"
    by (rule first(2))
  have rooms1: "room_users s1 r' =
               (let before = (if r' = currentRoom u
                              then removeAll i (room_users s r') else room_users s r')
                in if r' = R then set_add i before else before)" for r'
    using assms(2) by (simp add: first(4))
  have u1: "map_of (users s1) i = Some (u\<lparr>currentRoom := R\<rparr>)"
    by (simp add: users1 update_conv')
  define s2 where "s2 = fst (join_room s1 clk' i R)"
  define out2 where "out2 = snd (join_room s1 clk' i R)"
  note second = join_room_active [OF u1 s2_def]
  have j2: "join_room s1 clk' i R = (s2, out2)"
    by (simp add: s2_def out2_def)
  have out2: "room_broadcasts out2 =
             [(R, room_users_update R (usernames_of (users s1) (removeAll i (room_users s1 R)))),
              (R, receive_message
                 (system_message (username u @ '' has left the room.'') (clk' 0) R)),
              (R, room_users_update R (usernames_of (users s2) (room_users s2 R))),
              (R, receive_message
                 (system_message (username u @ '' has joined the room.'') (clk' 1) R))]"
    using assms(3) j1 by (simp add: out2_def second(1) update_conv' users1 map_of_eq_None_iff first(3))
  have users2: "users s2 = AList.update i (u\<lparr>currentRoom := R\<rparr>) (users s1)"
    using second(2) by simp
  have rooms2: "room_users s2 r' =
               (if r' = R then set_add i (removeAll i (room_users s1 r')) else room_users s1 r')" for r'
    using assms(3) by (simp add: second(4) Let_def)
  have once: "count_list (room_users s2 R) i = 1"
    by (simp add: rooms2 set_add_def)
  have others: "i \<notin> set (room_users s2 r')" if "r' \<noteq> R" for r'
    using that assms(4) by (auto simp: rooms2 rooms1 Let_def)
  have same_users: "users s2 = users s1"
    by (simp add: users2 users1)
  have same_sets: "set (room_users s2 r') = set (room_users s1 r')" for r'
    by (auto simp: rooms2 rooms1 Let_def set_add_def)
  have others_all: "\<forall>r'. r' \<noteq> R \<longrightarrow> i \<notin> set (room_users s2 r')"
    using others by blast
  have same_sets_all: "\<forall>r'. set (room_users s2 r') = set (room_users s1 r')"
    using same_sets by blast
  show ?thesis
    apply (rule exI [of _ s1], rule exI [of _ out1], rule exI [of _ s2], rule exI [of _ out2])
    apply (intro conjI)
           apply (rule j1)
          apply (rule j2)
         apply (rule out1)
        apply (rule out2)
       apply (rule once)
      apply (rule others_all)
     apply (rule same_users)
    apply (rule same_sets_all)
    done
qed

lemma join_room_twice_example:
  "map_of (users alice_bob) ''c2'' = Some \<lparr>username = ''bob'', currentRoom = ''general''\<rparr>
   \<and> (case join_room alice_bob fixed_clock ''c2'' ''dev'' of
         (s1, out1) \<Rightarrow>
           (case join_room s1 fixed_clock ''c2'' ''dev'' of
              (s2, out2) \<Rightarrow>
                room_broadcasts out2 =
                  [(''dev'', room_users_update ''dev'' []),
                   (''dev'', receive_message
                      (system_message ''bob has left the room.'' (fixed_clock 0) ''dev'')),
                   (''dev'', room_users_update ''dev'' [''bob'']),
                   (''dev'', receive_message
                      (system_message ''bob has joined the room.'' (fixed_clock 1) ''dev''))]
                \<and> count_list (room_users s2 ''dev'') ''c2'' = 1
                \<and> room_users s2 ''general'' = [''c1'']
                \<and> s2 = s1))"
proof -
  let ?after =
    "\<lparr>users = [(''c1'', \<lparr>username = ''alice'', currentRoom = ''general''\<rparr>),
               (''c2'', \<lparr>username = ''bob'', currentRoom = ''dev''\<rparr>)],
      rooms = [(''general'', \<lparr>name = ''General Chat'', users_set = [''c1'']\<rparr>),
               (''dev'', \<lparr>name = ''dev'', users_set = [''c2'']\<rparr>)]\<rparr>"
  have u: "map_of (users alice_bob) ''c2'' = Some \<lparr>username = ''bob'', currentRoom = ''general''\<rparr>"
    by (simp add: alice_bob_def)
  have ne: "currentRoom \<lparr>username = ''bob'', currentRoom = ''general''\<rparr> \<noteq> ''''"
    by simp
  have dev: "''dev'' \<noteq> ''''"
    by simp
  have only: "\<forall>r'. ''c2'' \<in> set (room_users alice_bob r')
                \<longrightarrow> r' = currentRoom \<lparr>username = ''bob'', currentRoom = ''general''\<rparr>"
    by (simp add: alice_bob_def room_users_def)
  have st1: "fst (join_room alice_bob fixed_clock ''c2'' ''dev'') = ?after"
    by (simp add: alice_bob_def handler_defs Let_def)
  have st2: "fst (join_room ?after fixed_clock ''c2'' ''dev'') = ?after"
    by (simp add: handler_defs Let_def)
  from join_room_twice [OF u ne dev only, of fixed_clock fixed_clock]
  obtain s1 out1 s2 out2
    where j1: "join_room alice_bob fixed_clock ''c2'' ''dev'' = (s1, out1)"
      and j2: "join_room s1 fixed_clock ''c2'' ''dev'' = (s2, out2)"
      and out2: "room_broadcasts out2 =
             [(''dev'', room_users_update ''dev''
                 (usernames_of (users s1) (removeAll ''c2'' (room_users s1 ''dev'')))),
              (''dev'', receive_message
                 (system_message (''bob'' @ '' has left the room.'') (fixed_clock 0) ''dev'')),
              (''dev'', room_users_update ''dev'' (usernames_of (users s2) (room_users s2 ''dev''))),
              (''dev'', receive_message
                 (system_message (''bob'' @ '' has joined the room.'') (fixed_clock 1) ''dev''))]"
      and once: "count_list (room_users s2 ''dev'') ''c2'' = 1"
    by fastforce
  have s1: "s1 = ?after"
    using j1 st1 by simp
  have s2: "s2 = ?after"
    using j2 st2 by (simp add: s1)
  have bc: "room_broadcasts out2 =
                  [(''dev'', room_users_update ''dev'' []),
                   (''dev'', receive_message
                      (system_message ''bob has left the room.'' (fixed_clock 0) ''dev'')),
                   (''dev'', room_users_update ''dev'' [''bob'']),
                   (''dev'', receive_message
                      (system_message ''bob has joined the room.'' (fixed_clock 1) ''dev''))]"
    unfolding out2 s1 s2
    by (simp add: usernames_of_def room_users_def List.map_filter_def)
  have gen: "room_users s2 ''general'' = [''c1'']"
    by (simp add: s2 room_users_def)
  show ?thesis
    using u bc once gen by (simp add: j1 j2) (simp add: s1 s2)
qed

subsection \<open>C2: join_chat from a socket that has a session\<close>

text \<open>
  C2 says that a join_chat from a connection that already has a session is not accepted
  and neither creates nor replaces the session. The handler never looks the socket up
  before line 55. Socket \<open>c1\<close> has joined as alice and sends join_chat again, with the
  name bob: the handler sends no error and the session of \<open>c1\<close> now has the name bob.
\<close>

theorem C2_second_join_chat_replaces_session:
  "map_of (users alice_joined) ''c1'' = Some \<lparr>username = ''alice'', currentRoom = ''general''\<rparr>
   \<and> (case join_chat alice_joined fixed_clock ''c1'' ''bob'' of
         Inl err \<Rightarrow> False
       | Inr (s, out) \<Rightarrow>
           map_of (users s) ''c1'' = Some \<lparr>username = ''bob'', currentRoom = ''general''\<rparr>
           \<and> error_emissions out = []
           \<and> joined_emissions out = [(IoAll, user_joined ''c1'' ''bob'' ''general'')])"
  by (simp add: alice_joined_def handler_defs error_emissions_def joined_emissions_def Let_def)

text \<open>
  C2 as amended: join_chat does not depend on whether the socket has a session. For a
  socket \<open>i\<close> that has one, in a state with the default room (every state the server
  reaches is one, by \<open>reachable_default_room\<close>):
  \<^item> the empty name is rejected, and so is a name that a user already has, the name of
    \<open>i\<close> itself included; the state stays as it was;
  \<^item> any other name is accepted as for a new socket: the handler announces
    \<^verbatim>\<open>user_joined\<close> to everyone, and the entry of \<open>i\<close> in the map is replaced, in its
    place, by a session with the new name and the default room as current room. No
    entry is added and no other entry changes.
\<close>

theorem C2_join_chat_when_active:
  assumes "map_of (users s) i = Some u" and "map_of (rooms s) DEFAULT_ROOM \<noteq> None"
  shows "(uname = '''' \<longrightarrow>
            join_chat s clk i uname =
              Inr (s, [Emit (Socket i) (error_message ''Username cannot be empty.'')]))
       \<and> (uname \<noteq> '''' \<and> uname \<in> set (usernames s) \<longrightarrow>
            join_chat s clk i uname =
              Inr (s, [Emit (Socket i)
                         (error_message ''Username already taken. Please choose another.'')]))
       \<and> username u \<in> set (usernames s)
       \<and> (uname \<noteq> '''' \<and> uname \<notin> set (usernames s) \<longrightarrow>
            (\<exists>s' rest. join_chat s clk i uname =
                Inr (s', Join i DEFAULT_ROOM # Emit IoAll (user_joined i uname DEFAULT_ROOM) # rest)
              \<and> error_emissions rest = []
              \<and> map_of (users s') i = Some \<lparr>username = uname, currentRoom = DEFAULT_ROOM\<rparr>
              \<and> map fst (users s') = map fst (users s)
              \<and> (\<forall>j. j \<noteq> i \<longrightarrow> map_of (users s') j = map_of (users s) j)))"
proof (intro conjI impI)
  assume "uname = ''''"
  then show "join_chat s clk i uname =
      Inr (s, [Emit (Socket i) (error_message ''Username cannot be empty.'')])"
    by (simp add: join_chat_def)
next
  assume "uname \<noteq> '''' \<and> uname \<in> set (usernames s)"
  then have "uname \<noteq> ''''" "find (\<lambda>u. username u = uname) (map snd (users s)) \<noteq> None"
    by (simp_all add: find_username_None usernames_def)
  then show "join_chat s clk i uname =
      Inr (s, [Emit (Socket i)
                 (error_message ''Username already taken. Please choose another.'')])"
    by (auto simp: join_chat_def)
next
  from assms(1) have "(i, u) \<in> set (users s)"
    by (rule map_of_SomeD)
  then show "username u \<in> set (usernames s)"
    by (force simp: usernames_def)
next
  assume fresh: "uname \<noteq> '''' \<and> uname \<notin> set (usernames s)"
  from assms(1) have key: "i \<in> fst ` set (users s)"
    by (rule map_of_SomeD_key)
  from fresh assms(2) join_chat_accepts [of uname s clk i]
  obtain s' rest where
    run: "join_chat s clk i uname =
            Inr (s', Join i DEFAULT_ROOM # Emit IoAll (user_joined i uname DEFAULT_ROOM) # rest)"
    and rest: "error_emissions rest = []"
    and us: "users s' = AList.update i \<lparr>username = uname, currentRoom = DEFAULT_ROOM\<rparr> (users s)"
    by blast
  have "map_of (users s') i = Some \<lparr>username = uname, currentRoom = DEFAULT_ROOM\<rparr>"
    and "map fst (users s') = map fst (users s)"
    and "\<forall>j. j \<noteq> i \<longrightarrow> map_of (users s') j = map_of (users s) j"
    using key by (simp_all add: us update_conv' update_keys)
  with run rest
  show "\<exists>s' rest. join_chat s clk i uname =
                Inr (s', Join i DEFAULT_ROOM # Emit IoAll (user_joined i uname DEFAULT_ROOM) # rest)
              \<and> error_emissions rest = []
              \<and> map_of (users s') i = Some \<lparr>username = uname, currentRoom = DEFAULT_ROOM\<rparr>
              \<and> map fst (users s') = map fst (users s)
              \<and> (\<forall>j. j \<noteq> i \<longrightarrow> map_of (users s') j = map_of (users s) j)"
    by blast
qed

theorem C2_join_chat_when_active_witness:
  "map_of (users alice_bob) ''c1'' = Some \<lparr>username = ''alice'', currentRoom = ''general''\<rparr>
   \<and> map_of (rooms alice_bob) DEFAULT_ROOM \<noteq> None
   \<and> join_chat alice_bob fixed_clock ''c1'' ''alice'' =
       Inr (alice_bob,
            [Emit (Socket ''c1'')
               (error_message ''Username already taken. Please choose another.'')])
   \<and> join_chat alice_bob fixed_clock ''c1'' ''bob'' =
       Inr (alice_bob,
            [Emit (Socket ''c1'')
               (error_message ''Username already taken. Please choose another.'')])
   \<and> join_chat alice_bob fixed_clock ''c1'' '''' =
       Inr (alice_bob, [Emit (Socket ''c1'') (error_message ''Username cannot be empty.'')])"
proof -
  have u: "map_of (users alice_bob) ''c1'' = Some \<lparr>username = ''alice'', currentRoom = ''general''\<rparr>"
    by (simp add: alice_bob_def)
  have d: "map_of (rooms alice_bob) DEFAULT_ROOM \<noteq> None"
    by (simp add: alice_bob_def DEFAULT_ROOM_def)
  have names: "usernames alice_bob = [''alice'', ''bob'']"
    by (simp add: usernames_def alice_bob_def)
  show ?thesis
    using u d C2_join_chat_when_active [OF u d, of "''alice''" fixed_clock]
      C2_join_chat_when_active [OF u d, of "''bob''" fixed_clock]
      C2_join_chat_when_active [OF u d, of "''''" fixed_clock]
    by (simp add: names)
qed

subsection \<open>C7: unique names\<close>

lemma emissions_append: "emissions (xs @ ys) = emissions xs @ emissions ys"
  by (induction xs rule: emissions.induct) simp_all

lemma update_fresh_key: "i \<notin> fst ` set us \<Longrightarrow> AList.update i v us = us @ [(i, v)]"
  by (induction us) auto

lemma fold_update_fresh_keys:
  "distinct (map fst calls) \<Longrightarrow> fst ` set calls \<inter> fst ` set us = {} \<Longrightarrow>
   fold (\<lambda>(i, n). AList.update i (new_session n)) calls us
     = us @ map (\<lambda>(i, n). (i, new_session n)) calls"
proof (induction calls arbitrary: us)
  case Nil
  then show ?case by simp
next
  case (Cons c calls)
  obtain i n where c: "c = (i, n)" by (cases c)
  from Cons.prems c have fresh: "i \<notin> fst ` set us" by auto
  from Cons.prems c have "distinct (map fst calls)"
    and "fst ` set calls \<inter> fst ` set (us @ [(i, new_session n)]) = {}"
    by auto
  from Cons.IH [OF this] show ?case
    by (simp add: c update_fresh_key [OF fresh])
qed

text \<open>
  A list of join_chat calls whose names are distinct, not empty and not in use: every
  call is accepted and stores its session, and the names of the users stay distinct.
\<close>

lemma join_chat_calls_accepted:
  assumes "distinct (map snd calls)" and "'''' \<notin> snd ` set calls"
    and "snd ` set calls \<inter> set (usernames s) = {}"
    and "distinct (usernames s)"
    and "map_of (rooms s) DEFAULT_ROOM \<noteq> None"
  shows "\<exists>s' out. run s clk (map (\<lambda>(i, n). (i, In_join_chat n)) calls) = Inr (s', out)
           \<and> error_emissions out = []
           \<and> joined_emissions out = map (\<lambda>(i, n). (IoAll, user_joined i n DEFAULT_ROOM)) calls
           \<and> users s' = fold (\<lambda>(i, n). AList.update i (new_session n)) calls (users s)
           \<and> distinct (usernames s')"
  using assms
proof (induction calls arbitrary: s)
  case Nil
  then show ?case
    by (simp add: error_emissions_def joined_emissions_def)
next
  case (Cons c calls)
  obtain i n where c: "c = (i, n)" by (cases c)
  from Cons.prems c have n: "n \<noteq> ''''" "n \<notin> set (usernames s)" "n \<notin> snd ` set calls"
    by auto
  from join_chat_accepts [OF n(1) n(2) Cons.prems(5), of clk i]
  obtain s1 rest where
    step: "join_chat s clk i n =
             Inr (s1, Join i DEFAULT_ROOM # Emit IoAll (user_joined i n DEFAULT_ROOM) # rest)"
    and rest: "joined_emissions rest = []" "error_emissions rest = []"
    and us: "users s1 = AList.update i (new_session n) (users s)"
    and keys: "map fst (rooms s1) = map fst (rooms s)"
    unfolding new_session_def by blast
  have sub: "set (usernames s1) \<subseteq> insert n (set (usernames s))"
    using usernames_update_subset [of i "new_session n" "users s"]
    by (simp add: usernames_def us new_session_def)
  have dist: "distinct (usernames s1)"
    using usernames_update_distinct [of "users s" "new_session n" i] Cons.prems(4) n(2)
    by (simp add: usernames_def us new_session_def)
  have room: "map_of (rooms s1) DEFAULT_ROOM \<noteq> None"
    using Cons.prems(5) keys by (simp add: map_of_eq_None_iff flip: set_map)
  have disj: "snd ` set calls \<inter> set (usernames s1) = {}"
    using sub n(3) Cons.prems(3) by auto
  from Cons.prems(1,2) have "distinct (map snd calls)" "'''' \<notin> snd ` set calls"
    by auto
  from Cons.IH [OF this disj dist room]
  obtain s' out where
    run: "run s1 clk (map (\<lambda>(i, n). (i, In_join_chat n)) calls) = Inr (s', out)"
    and out: "error_emissions out = []"
      "joined_emissions out = map (\<lambda>(i, n). (IoAll, user_joined i n DEFAULT_ROOM)) calls"
    and stored: "users s' = fold (\<lambda>(i, n). AList.update i (new_session n)) calls (users s1)"
    and dist': "distinct (usernames s')"
    by blast
  let ?out1 = "Join i DEFAULT_ROOM # Emit IoAll (user_joined i n DEFAULT_ROOM) # rest"
  have whole: "run s clk (map (\<lambda>(i, n). (i, In_join_chat n)) (c # calls)) = Inr (s', ?out1 @ out)"
    by (simp add: c step run)
  have errs: "error_emissions (?out1 @ out) = []"
    using rest(2) out(1) by (simp add: error_emissions_def emissions_append)
  have joins: "joined_emissions (?out1 @ out) =
      map (\<lambda>(i, n). (IoAll, user_joined i n DEFAULT_ROOM)) (c # calls)"
    using rest(1) out(2) by (simp add: joined_emissions_def emissions_append c)
  have stored': "users s' = fold (\<lambda>(i, n). AList.update i (new_session n)) (c # calls) (users s)"
    by (simp add: stored us c)
  show ?case
    apply (rule exI [of _ s'], rule exI [of _ "?out1 @ out"])
    apply (intro conjI)
        apply (rule whole)
       apply (rule errs)
      apply (rule joins)
     apply (rule stored')
    apply (rule dist')
    done
qed

lemma join_chat_taken:
  assumes "n \<noteq> ''''" and "n \<in> set (usernames t)"
  shows "join_chat t clk j n =
           Inr (t, [Emit (Socket j)
                      (error_message ''Username already taken. Please choose another.'')])"
proof -
  from assms(2) have "find (\<lambda>u. username u = n) (map snd (users t)) \<noteq> None"
    by (simp add: find_username_None usernames_def)
  with assms(1) show ?thesis
    by (auto simp: join_chat_def)
qed

text \<open>
  C7 says that every list of join_chat calls with distinct names succeeds. The list of
  the single call with the empty name has distinct names, and the call is rejected.
\<close>

theorem C7_empty_name_call_fails:
  "distinct (map snd [(''c1'', '''')])
   \<and> run init fixed_clock (map (\<lambda>(i, n). (i, In_join_chat n)) [(''c1'', '''')]) =
       Inr (init, [Emit (Socket ''c1'') (error_message ''Username cannot be empty.'')])"
  by (simp add: join_chat_def)

text \<open>
  C7 as amended. In a state with the default room whose users have distinct names, take
  any list of join_chat calls whose names are distinct, not empty and not the name of a
  user. Then every call succeeds:
  \<^item> the run does not throw, no \<^verbatim>\<open>error_message\<close> is sent, and the \<^verbatim>\<open>user_joined\<close>
    announcements are those of the calls, one for each and in their order;
  \<^item> every call stores its session, with its name and the default room: the map of the
    users afterwards is the map before with the calls' sessions set one after the other;
  \<^item> the names of the users are distinct afterwards;
  \<^item> when the calls come from distinct sockets that had no session, the map afterwards
    is the map before followed by one new session for each call, in the order of the
    calls, and a further join_chat with the name of any of the calls, from any socket, is
    rejected as taken and changes nothing.
  And in any state \<open>t\<close>, a join_chat whose name is not empty and is, character for
  character, the name of a user of \<open>t\<close> is rejected as taken and leaves \<open>t\<close> as it was;
  \<open>t\<close> is any state, so this does not depend on what was called before.
\<close>

theorem C7_distinct_names_accepted:
  assumes "distinct (map snd calls)" and "'''' \<notin> snd ` set calls"
    and "snd ` set calls \<inter> set (usernames s) = {}"
    and "distinct (usernames s)"
    and "map_of (rooms s) DEFAULT_ROOM \<noteq> None"
  shows "(\<exists>s' out. run s clk (map (\<lambda>(i, n). (i, In_join_chat n)) calls) = Inr (s', out)
            \<and> error_emissions out = []
            \<and> joined_emissions out = map (\<lambda>(i, n). (IoAll, user_joined i n DEFAULT_ROOM)) calls
            \<and> users s' = fold (\<lambda>(i, n). AList.update i (new_session n)) calls (users s)
            \<and> distinct (usernames s')
            \<and> (distinct (map fst calls) \<and> fst ` set calls \<inter> fst ` set (users s) = {} \<longrightarrow>
                  users s' = users s @ map (\<lambda>(i, n). (i, new_session n)) calls
                  \<and> (\<forall>c \<in> set calls. \<forall>j clk'.
                        join_chat s' clk' j (snd c) =
                          Inr (s', [Emit (Socket j)
                                 (error_message
                                   ''Username already taken. Please choose another.'')]))))
       \<and> (n \<noteq> '''' \<and> n \<in> set (usernames t) \<longrightarrow>
            join_chat t clk' j n =
              Inr (t, [Emit (Socket j)
                         (error_message ''Username already taken. Please choose another.'')]))"
proof (rule conjI)
  from join_chat_calls_accepted [OF assms, of clk] obtain s' out where
    run: "run s clk (map (\<lambda>(i, n). (i, In_join_chat n)) calls) = Inr (s', out)"
    and errs: "error_emissions out = []"
    and joins: "joined_emissions out = map (\<lambda>(i, n). (IoAll, user_joined i n DEFAULT_ROOM)) calls"
    and stored: "users s' = fold (\<lambda>(i, n). AList.update i (new_session n)) calls (users s)"
    and dist: "distinct (usernames s')"
    by blast
  have fresh: "distinct (map fst calls) \<and> fst ` set calls \<inter> fst ` set (users s) = {} \<longrightarrow>
                  users s' = users s @ map (\<lambda>(i, n). (i, new_session n)) calls
                  \<and> (\<forall>c \<in> set calls. \<forall>j clk'.
                        join_chat s' clk' j (snd c) =
                          Inr (s', [Emit (Socket j)
                                 (error_message
                                   ''Username already taken. Please choose another.'')]))"
  proof
    assume ids: "distinct (map fst calls) \<and> fst ` set calls \<inter> fst ` set (users s) = {}"
    then have appended: "users s' = users s @ map (\<lambda>(i, n). (i, new_session n)) calls"
      using fold_update_fresh_keys [of calls "users s"] by (simp add: stored)
    have taken: "join_chat s' clk' j (snd c) =
                   Inr (s', [Emit (Socket j)
                          (error_message ''Username already taken. Please choose another.'')])"
      if c: "c \<in> set calls" for c j clk'
    proof (rule join_chat_taken)
      from c assms(2) show "snd c \<noteq> ''''" by (metis imageI)
      have "usernames s' = usernames s @ map snd calls"
        by (simp add: usernames_def appended new_session_def case_prod_beta)
      with c show "snd c \<in> set (usernames s')"
        by simp
    qed
    from appended taken
    show "users s' = users s @ map (\<lambda>(i, n). (i, new_session n)) calls
                  \<and> (\<forall>c \<in> set calls. \<forall>j clk'.
                        join_chat s' clk' j (snd c) =
                          Inr (s', [Emit (Socket j)
                                 (error_message
                                   ''Username already taken. Please choose another.'')]))"
      by blast
  qed
  show "\<exists>s' out. run s clk (map (\<lambda>(i, n). (i, In_join_chat n)) calls) = Inr (s', out)
            \<and> error_emissions out = []
            \<and> joined_emissions out = map (\<lambda>(i, n). (IoAll, user_joined i n DEFAULT_ROOM)) calls
            \<and> users s' = fold (\<lambda>(i, n). AList.update i (new_session n)) calls (users s)
            \<and> distinct (usernames s')
            \<and> (distinct (map fst calls) \<and> fst ` set calls \<inter> fst ` set (users s) = {} \<longrightarrow>
                  users s' = users s @ map (\<lambda>(i, n). (i, new_session n)) calls
                  \<and> (\<forall>c \<in> set calls. \<forall>j clk'.
                        join_chat s' clk' j (snd c) =
                          Inr (s', [Emit (Socket j)
                                 (error_message
                                   ''Username already taken. Please choose another.'')])))"
    apply (rule exI [of _ s'], rule exI [of _ out])
    apply (intro conjI)
         apply (rule run)
        apply (rule errs)
       apply (rule joins)
      apply (rule stored)
     apply (rule dist)
    apply (rule fresh)
    done
next
  show "n \<noteq> '''' \<and> n \<in> set (usernames t) \<longrightarrow>
            join_chat t clk' j n =
              Inr (t, [Emit (Socket j)
                         (error_message ''Username already taken. Please choose another.'')])"
    by (auto intro: join_chat_taken)
qed

text \<open>
  Two sockets join as alice and bob from the initial state: both sessions are stored, and
  a third socket that asks for the name bob, or for the name alice, is turned away.
\<close>

theorem C7_distinct_names_accepted_witness:
  "distinct (map snd [(''c1'', ''alice''), (''c2'', ''bob'')])
   \<and> '''' \<notin> snd ` set [(''c1'', ''alice''), (''c2'', ''bob'')]
   \<and> usernames init = []
   \<and> users init = []
   \<and> map_of (rooms init) DEFAULT_ROOM \<noteq> None
   \<and> (\<exists>out. run init fixed_clock [(''c1'', In_join_chat ''alice''), (''c2'', In_join_chat ''bob'')]
               = Inr (alice_bob, out)
            \<and> error_emissions out = []
            \<and> joined_emissions out =
                 [(IoAll, user_joined ''c1'' ''alice'' DEFAULT_ROOM),
                  (IoAll, user_joined ''c2'' ''bob'' DEFAULT_ROOM)])
   \<and> users alice_bob = [(''c1'', new_session ''alice''), (''c2'', new_session ''bob'')]
   \<and> join_chat alice_bob fixed_clock ''c3'' ''bob'' =
       Inr (alice_bob,
            [Emit (Socket ''c3'')
               (error_message ''Username already taken. Please choose another.'')])
   \<and> join_chat alice_bob fixed_clock ''c3'' ''alice'' =
       Inr (alice_bob,
            [Emit (Socket ''c3'')
               (error_message ''Username already taken. Please choose another.'')])"
proof -
  let ?calls = "[(''c1'', ''alice''), (''c2'', ''bob'')]"
  have h1: "distinct (map snd ?calls)" and h2: "'''' \<notin> snd ` set ?calls"
    by simp_all
  have names0: "usernames init = []" and users0: "users init = []"
    by (simp_all add: usernames_def init_def)
  have h3: "snd ` set ?calls \<inter> set (usernames init) = {}"
    and h4: "distinct (usernames init)"
    by (simp_all add: names0)
  have h5: "map_of (rooms init) DEFAULT_ROOM \<noteq> None"
    by (simp add: init_def)
  have ids: "distinct (map fst ?calls) \<and> fst ` set ?calls \<inter> fst ` set (users init) = {}"
    by (simp add: users0)
  note inst = C7_distinct_names_accepted [OF h1 h2 h3 h4 h5,
      of fixed_clock "''bob''" alice_bob fixed_clock "''c3''"]
  from inst ids obtain s' out where
    run: "run init fixed_clock (map (\<lambda>(i, n). (i, In_join_chat n)) ?calls) = Inr (s', out)"
    and out: "error_emissions out = []"
      "joined_emissions out = map (\<lambda>(i, n). (IoAll, user_joined i n DEFAULT_ROOM)) ?calls"
    and stored: "users s' = users init @ map (\<lambda>(i, n). (i, new_session n)) ?calls"
    and taken: "\<forall>c \<in> set ?calls. \<forall>j clk'.
                  join_chat s' clk' j (snd c) =
                    Inr (s', [Emit (Socket j)
                           (error_message ''Username already taken. Please choose another.'')])"
    by blast
  from run_alice_bob [of fixed_clock] run have s': "s' = alice_bob"
    by auto
  have sessions: "users alice_bob = [(''c1'', new_session ''alice''), (''c2'', new_session ''bob'')]"
    using stored by (simp add: s' users0)
  have bob: "join_chat alice_bob fixed_clock ''c3'' ''bob'' =
       Inr (alice_bob,
            [Emit (Socket ''c3'')
               (error_message ''Username already taken. Please choose another.'')])"
    and alice: "join_chat alice_bob fixed_clock ''c3'' ''alice'' =
       Inr (alice_bob,
            [Emit (Socket ''c3'')
               (error_message ''Username already taken. Please choose another.'')])"
    using taken by (simp_all add: s')
  have ran: "\<exists>out. run init fixed_clock [(''c1'', In_join_chat ''alice''), (''c2'', In_join_chat ''bob'')]
               = Inr (alice_bob, out)
            \<and> error_emissions out = []
            \<and> joined_emissions out =
                 [(IoAll, user_joined ''c1'' ''alice'' DEFAULT_ROOM),
                  (IoAll, user_joined ''c2'' ''bob'' DEFAULT_ROOM)]"
    using run out s' by (intro exI [of _ out]) simp
  show ?thesis
    apply (intro conjI)
            apply (rule h1)
           apply (rule h2)
          apply (rule names0)
         apply (rule users0)
        apply (rule h5)
       apply (rule ran)
      apply (rule sessions)
     apply (rule bob)
    apply (rule alice)
    done
qed

subsection \<open>C1: the occupants of a room and the sessions in it\<close>

text \<open>
  C1 says that in every state the server can reach, a socket is an occupant of a room
  exactly when it has a session whose current room is that room. Socket \<open>c1\<close> joins the
  chat as alice, moves to the room \<open>dev\<close>, and sends join_chat again with the name bob.
  join_chat puts the session back into the default room and adds the socket to that
  room's occupants, but unlike join_room it does not take the socket out of the room it
  was in: \<open>c1\<close> ends as an occupant of \<open>dev\<close> with a session whose current room is
  \<open>general\<close>. (The other half of C1, that a socket with a session is an occupant of the
  session's current room, is \<open>reachable_session_in_current_room\<close> above.)
\<close>

theorem C1_stale_occupant_after_join_chat:
  "(case run init fixed_clock
           [(''c1'', In_join_chat ''alice''), (''c1'', In_join_room ''dev''),
            (''c1'', In_join_chat ''bob'')] of
      Inl err \<Rightarrow> False
    | Inr (s, out) \<Rightarrow>
        users s = [(''c1'', \<lparr>username = ''bob'', currentRoom = ''general''\<rparr>)]
        \<and> room_users s ''dev'' = [''c1'']
        \<and> room_users s ''general'' = [''c1''])"
  by (simp add: init_def handler_defs Let_def)

text \<open>
  The same happens without a second join_chat. The guards of join_room (line 101) and of
  disconnect (line 222) test \<^verbatim>\<open>user.currentRoom\<close> for truthiness, so neither takes the
  socket out of the room whose name is the empty string: after joining that room and
  disconnecting, \<open>c1\<close> has no session and is still an occupant.
\<close>

lemma stale_occupant_after_disconnect:
  "(case run init fixed_clock
           [(''c1'', In_join_chat ''alice''), (''c1'', In_join_room ''''),
            (''c1'', In_disconnect)] of
      Inl err \<Rightarrow> False
    | Inr (s, out) \<Rightarrow> users s = [] \<and> room_users s '''' = [''c1''])"
  by (simp add: init_def handler_defs Let_def)

end
